theory Spec2Isabelle
  imports Complex_Main
begin

section \<open>Python values\<close>

text \<open>
  The gate algebra of \<^verbatim>\<open>src/qsearch/gates.py\<close>. Exceptions are values of \<open>error\<close>, and
  a method that can raise returns \<open>error + 'a\<close> (\<open>Inl\<close> the exception). A numpy array
  of shape \<open>(n, m)\<close> is a list of \<open>n\<close> rows of \<open>m\<close> entries; the entries are exact complex
  numbers (every array is taken to be of dtype \<^verbatim>\<open>complex128\<close>, as the arrays the module
  builds are, and the rounding of \<^verbatim>\<open>complex128\<close> is not modelled). A parameter vector
  is a list of reals, and Python's integers are \<open>int\<close>.
\<close>

datatype error =
    NotImplementedError | IndexError | NameError | AttributeError | ValueError | TypeError

type_synonym ndarray = "complex list list"

text \<open>What a Python function hands back: \<^verbatim>\<open>None\<close> (no \<^verbatim>\<open>return\<close> reached) or a bool.\<close>

datatype pyval = PyNone | PyBool bool

fun truthy :: "pyval \<Rightarrow> bool" where
  "truthy PyNone = False"
| "truthy (PyBool b) = b"

text \<open>\<^verbatim>\<open>xs[a:b]\<close>, \<^verbatim>\<open>xs[:b]\<close> and \<^verbatim>\<open>xs[a:]\<close>: a negative index counts from the end,
  and both ends are clamped to the sequence.\<close>

definition clamp_index :: "'a list \<Rightarrow> int \<Rightarrow> nat" where
  "clamp_index xs i =
     (if i < 0 then nat (int (length xs) + i) else min (length xs) (nat i))"

definition py_slice :: "'a list \<Rightarrow> int \<Rightarrow> int \<Rightarrow> 'a list" where
  "py_slice xs a b = take (clamp_index xs b - clamp_index xs a) (drop (clamp_index xs a) xs)"

definition slice_to :: "'a list \<Rightarrow> int \<Rightarrow> 'a list" where
  "slice_to xs b = take (clamp_index xs b) xs"

definition slice_from :: "'a list \<Rightarrow> int \<Rightarrow> 'a list" where
  "slice_from xs a = drop (clamp_index xs a) xs"

text \<open>\<^verbatim>\<open>str\<close> of an integer, as \<^verbatim>\<open>"{}".format\<close> prints it.\<close>

fun show_nat :: "nat \<Rightarrow> string" where
  "show_nat n =
     (if n < 10 then [char_of (48 + n)]
      else show_nat (n div 10) @ [char_of (48 + n mod 10)])"

declare show_nat.simps [simp del]

definition show_int :: "int \<Rightarrow> string" where
  "show_int i = (if i < 0 then CHR ''-'' # show_nat (nat (- i)) else show_nat (nat i))"

text \<open>\<^verbatim>\<open>", ".join\<close>, and \<^verbatim>\<open>repr\<close> of a tuple and of a list of already printed items.\<close>

fun join_comma :: "string list \<Rightarrow> string" where
  "join_comma [] = []"
| "join_comma [s] = s"
| "join_comma (s # t # ss) = s @ '', '' @ join_comma (t # ss)"

definition repr_tuple :: "string list \<Rightarrow> string" where
  "repr_tuple rs =
     (case rs of [r] \<Rightarrow> ''('' @ r @ '',)'' | _ \<Rightarrow> ''('' @ join_comma rs @ '')'')"

definition repr_list :: "string list \<Rightarrow> string" where
  "repr_list rs = ''['' @ join_comma rs @ '']''"

text \<open>\<^verbatim>\<open>s[1:-1]\<close>.\<close>

definition strip_ends :: "string \<Rightarrow> string" where
  "strip_ends s = py_slice s 1 (- 1)"

text \<open>Running a list of calls in order; the first exception ends the run.\<close>

fun those_err :: "(error + 'a) list \<Rightarrow> error + 'a list" where
  "those_err [] = Inr []"
| "those_err (Inl e # rs) = Inl e"
| "those_err (Inr x # rs) = (case those_err rs of Inl e \<Rightarrow> Inl e | Inr xs \<Rightarrow> Inr (x # xs))"

section \<open>Gate objects\<close>

text \<open>
  One constructor per class of the module, holding the fields \<^verbatim>\<open>__init__\<close> sets. The
  composites carry their declared \<^verbatim>\<open>num_inputs\<close> and \<^verbatim>\<open>qudits\<close> as fields, since
  these can be set apart from the children. Arrays computed at construction by the modules
  \<^verbatim>\<open>unitaries\<close> and \<^verbatim>\<open>utils\<close> (not part of the sources) are fields of the object.
  The assembly names of \<^verbatim>\<open>UGate\<close> and \<^verbatim>\<open>CUGate\<close> play no part here and are left out.
\<close>

datatype gate =
    IdentityGate int int ndarray
  | XGate | YGate | ZGate | ZXZXZGate | XZXZGate
  | U3Gate | U2Gate | U1Gate
  | SingleQutritGate
  | CSUMGate | CPIGate
  | CPIPhaseGate ndarray
  | CNOTGate | CZGate | ISwapGate | XXGate
  | NonadjacentCNOTGate int int int ndarray
  | UGate ndarray int int
  | UpgradedConstantGate gate int ndarray
  | CUGate ndarray bool ndarray
  | CNOTRootGate
  | KroneckerGate int int "gate list"
  | ProductGate int int "gate list"

text \<open>\<^verbatim>\<open>type(g).__name__\<close>: two objects have the same type iff the names agree.\<close>

fun type_name :: "gate \<Rightarrow> string" where
  "type_name (IdentityGate q d I) = ''IdentityGate''"
| "type_name XGate = ''XGate''"
| "type_name YGate = ''YGate''"
| "type_name ZGate = ''ZGate''"
| "type_name ZXZXZGate = ''ZXZXZGate''"
| "type_name XZXZGate = ''XZXZGate''"
| "type_name U3Gate = ''U3Gate''"
| "type_name U2Gate = ''U2Gate''"
| "type_name U1Gate = ''U1Gate''"
| "type_name SingleQutritGate = ''SingleQutritGate''"
| "type_name CSUMGate = ''CSUMGate''"
| "type_name CPIGate = ''CPIGate''"
| "type_name (CPIPhaseGate M) = ''CPIPhaseGate''"
| "type_name CNOTGate = ''CNOTGate''"
| "type_name CZGate = ''CZGate''"
| "type_name ISwapGate = ''ISwapGate''"
| "type_name XXGate = ''XXGate''"
| "type_name (NonadjacentCNOTGate q c t U) = ''NonadjacentCNOTGate''"
| "type_name (UGate U d q) = ''UGate''"
| "type_name (UpgradedConstantGate g df U) = ''UpgradedConstantGate''"
| "type_name (CUGate U f CU) = ''CUGate''"
| "type_name CNOTRootGate = ''CNOTRootGate''"
| "type_name (KroneckerGate n q gs) = ''KroneckerGate''"
| "type_name (ProductGate n q gs) = ''ProductGate''"

fun num_inputs :: "gate \<Rightarrow> int" where
  "num_inputs (IdentityGate q d I) = 0"
| "num_inputs XGate = 1"
| "num_inputs YGate = 1"
| "num_inputs ZGate = 1"
| "num_inputs ZXZXZGate = 3"
| "num_inputs XZXZGate = 2"
| "num_inputs U3Gate = 3"
| "num_inputs U2Gate = 2"
| "num_inputs U1Gate = 1"
| "num_inputs SingleQutritGate = 8"
| "num_inputs CSUMGate = 0"
| "num_inputs CPIGate = 0"
| "num_inputs (CPIPhaseGate M) = 0"
| "num_inputs CNOTGate = 0"
| "num_inputs CZGate = 0"
| "num_inputs ISwapGate = 0"
| "num_inputs XXGate = 0"
| "num_inputs (NonadjacentCNOTGate q c t U) = 0"
| "num_inputs (UGate U d q) = 0"
| "num_inputs (UpgradedConstantGate g df U) = 0"
| "num_inputs (CUGate U f CU) = 0"
| "num_inputs CNOTRootGate = 0"
| "num_inputs (KroneckerGate n q gs) = n"
| "num_inputs (ProductGate n q gs) = n"

fun qudits :: "gate \<Rightarrow> int" where
  "qudits (IdentityGate q d I) = q"
| "qudits XGate = 1"
| "qudits YGate = 1"
| "qudits ZGate = 1"
| "qudits ZXZXZGate = 1"
| "qudits XZXZGate = 1"
| "qudits U3Gate = 1"
| "qudits U2Gate = 1"
| "qudits U1Gate = 1"
| "qudits SingleQutritGate = 1"
| "qudits CSUMGate = 2"
| "qudits CPIGate = 2"
| "qudits (CPIPhaseGate M) = 2"
| "qudits CNOTGate = 2"
| "qudits CZGate = 2"
| "qudits ISwapGate = 2"
| "qudits XXGate = 2"
| "qudits (NonadjacentCNOTGate q c t U) = q"
| "qudits (UGate U d q) = q"
| "qudits (UpgradedConstantGate g df U) = qudits g"
| "qudits (CUGate U f CU) = 2"
| "qudits CNOTRootGate = 2"
| "qudits (KroneckerGate n q gs) = q"
| "qudits (ProductGate n q gs) = q"

subsection \<open>Canonical representation, equality and hash\<close>

text \<open>
  \<^verbatim>\<open>__repr__\<close>. \<^verbatim>\<open>UGate.__repr__\<close> reads the name \<^verbatim>\<open>U\<close>, which is bound neither in
  the method nor in the module, and \<^verbatim>\<open>CUGate.__repr__\<close> reads \<^verbatim>\<open>self.name\<close>, which no
  method sets: both raise. A composite prints its children first, so a child's exception
  is the composite's.
\<close>

fun repr :: "gate \<Rightarrow> error + string" where
  "repr (IdentityGate q d I) =
     (if q = 1 \<and> d = 2 then Inr ''IdentityGate()''
      else Inr (''IdentityGate(qudits='' @ show_int q @ '', d='' @ show_int d @ '')''))"
| "repr XGate = Inr ''XGate()''"
| "repr YGate = Inr ''YGate()''"
| "repr ZGate = Inr ''ZGate()''"
| "repr ZXZXZGate = Inr ''ZXZXZGate()''"
| "repr XZXZGate = Inr ''XZXZGate()''"
| "repr U3Gate = Inr ''U3Gate()''"
| "repr U2Gate = Inr ''U2Gate()''"
| "repr U1Gate = Inr ''U1Gate()''"
| "repr SingleQutritGate = Inr ''SingleQutritGate()''"
| "repr CSUMGate = Inr ''CSUMGate()''"
| "repr CPIGate = Inr ''CPIGate()''"
| "repr (CPIPhaseGate M) = Inr ''CPIPhaseGate()''"
| "repr CNOTGate = Inr ''CNOTGate()''"
| "repr CZGate = Inr ''CZGate()''"
| "repr ISwapGate = Inr ''ISwapGate()''"
| "repr XXGate = Inr ''XXGate()''"
| "repr (NonadjacentCNOTGate q c t U) =
     Inr (''NonadjacentCNOTGate('' @ show_int q @ '', '' @ show_int c @ '', '' @ show_int t @ '')'')"
| "repr (UGate U d q) = Inl NameError"
| "repr (UpgradedConstantGate g df U) =
     (case repr g of
        Inl e \<Rightarrow> Inl e
      | Inr r \<Rightarrow> Inr (''UpgradedConstantGate('' @ r @ '', df='' @ show_int df @ '')''))"
| "repr (CUGate U f CU) = Inl AttributeError"
| "repr CNOTRootGate = Inr ''CNOTRootGate()''"
| "repr (KroneckerGate n q gs) =
     (case those_err (map repr gs) of
        Inl e \<Rightarrow> Inl e
      | Inr rs \<Rightarrow> Inr (''KroneckerGate('' @ strip_ends (repr_tuple rs) @ '')''))"
| "repr (ProductGate n q gs) =
     (case those_err (map repr gs) of
        Inl e \<Rightarrow> Inl e
      | Inr rs \<Rightarrow> Inr (''ProductGate('' @ strip_ends (repr_list rs) @ '')''))"

text \<open>
  \<^verbatim>\<open>a == b\<close> calls the \<^verbatim>\<open>__eq__\<close> of \<open>a\<close>'s class: seven classes compare the
  types, the others inherit \<^verbatim>\<open>Gate.__eq__\<close> and compare the representations.
\<close>

definition eq_by_type :: "gate \<Rightarrow> bool" where
  "eq_by_type a \<longleftrightarrow>
     type_name a \<in> set [''U3Gate'', ''U2Gate'', ''U1Gate'', ''CNOTGate'', ''CZGate'',
                          ''ISwapGate'', ''XXGate'']"

definition py_eq :: "gate \<Rightarrow> gate \<Rightarrow> error + bool" where
  "py_eq a b =
     (if eq_by_type a then Inr (type_name a = type_name b)
      else (case repr a of
              Inl e \<Rightarrow> Inl e
            | Inr ra \<Rightarrow> (case repr b of Inl e \<Rightarrow> Inl e | Inr rb \<Rightarrow> Inr (ra = rb))))"

text \<open>
  \<^verbatim>\<open>hash(a)\<close>. A class that defines \<^verbatim>\<open>__eq__\<close> and no \<^verbatim>\<open>__hash__\<close> has its
  \<^verbatim>\<open>__hash__\<close> set to \<^verbatim>\<open>None\<close> by Python, and \<^verbatim>\<open>hash\<close> of its instances raises
  \<^verbatim>\<open>TypeError\<close>: these are the seven classes that compare by type. The others inherit
  \<^verbatim>\<open>Gate.__hash__\<close>. The digest is a parameter: \<open>md5 s\<close> stands for the number that
  \<^verbatim>\<open>hash\<close> makes of \<^verbatim>\<open>int(md5(s.encode()).hexdigest(), 16)\<close>.
\<close>

definition py_hash :: "(string \<Rightarrow> nat) \<Rightarrow> gate \<Rightarrow> error + nat" where
  "py_hash md5 a =
     (if eq_by_type a then Inl TypeError
      else (case repr a of Inl e \<Rightarrow> Inl e | Inr r \<Rightarrow> Inr (md5 r)))"

subsection \<open>Construction\<close>

text \<open>The \<^verbatim>\<open>_subgates\<close> field of a composite.\<close>

fun subgates :: "gate \<Rightarrow> gate list" where
  "subgates (KroneckerGate n q gs) = gs"
| "subgates (ProductGate n q gs) = gs"
| "subgates g = []"

text \<open>\<^verbatim>\<open>KroneckerGate.__init__(self, *subgates)\<close>: the children are kept as given.\<close>

definition KroneckerGate_init :: "gate list \<Rightarrow> gate" where
  "KroneckerGate_init gs =
     KroneckerGate (sum_list (map num_inputs gs)) (sum_list (map qudits gs)) gs"

text \<open>
  \<^verbatim>\<open>ProductGate.__init__(self, *subgates)\<close>: the loop extends the new child list by
  the children of an argument whose type is \<^verbatim>\<open>ProductGate\<close> and appends any other
  argument.
\<close>

fun absorb :: "gate list \<Rightarrow> gate list \<Rightarrow> gate list" where
  "absorb acc [] = acc"
| "absorb acc (g # gs) =
     absorb (if type_name g = ''ProductGate'' then acc @ subgates g else acc @ [g]) gs"

definition ProductGate_init :: "gate list \<Rightarrow> gate" where
  "ProductGate_init gs =
     ProductGate (sum_list (map num_inputs gs))
       (case gs of [] \<Rightarrow> 0 | g # _ \<Rightarrow> qudits g)
       (absorb [] gs)"

text \<open>\<^verbatim>\<open>KroneckerGate.appending(self, gate)\<close>, \<^verbatim>\<open>ProductGate.appending(self, *gates)\<close>
  and \<^verbatim>\<open>ProductGate.inserting(self, *gates, depth=-1)\<close>, each on an object of its class.\<close>

fun KroneckerGate_appending :: "gate \<Rightarrow> gate \<Rightarrow> gate" where
  "KroneckerGate_appending (KroneckerGate n q cs) g = KroneckerGate_init (cs @ [g])"

fun appending :: "gate \<Rightarrow> gate list \<Rightarrow> gate" where
  "appending (ProductGate n q cs) gates = ProductGate_init (cs @ gates)"

fun inserting :: "gate \<Rightarrow> gate list \<Rightarrow> int \<Rightarrow> gate" where
  "inserting (ProductGate n q cs) gates depth =
     ProductGate_init (slice_to cs depth @ gates @ slice_from cs depth)"

subsection \<open>Structural validation\<close>

text \<open>
  The methods call \<^verbatim>\<open>warn(...)\<close>. The parameter \<open>w\<close> is what that call does: the
  module neither defines nor imports the name, so in the module as it stands the call
  raises (\<open>unbound_warn\<close>); \<open>Inr ()\<close> is a \<^verbatim>\<open>warn\<close> that prints and returns.
\<close>

definition unbound_warn :: "error + unit" where
  "unbound_warn = Inl NameError"

definition warn_then :: "error + unit \<Rightarrow> 'a \<Rightarrow> error + 'a" where
  "warn_then w x = (case w of Inl e \<Rightarrow> Inl e | Inr u \<Rightarrow> Inr x)"

text \<open>
  \<open>kron_loop\<close> and \<open>prod_loop\<close> are the \<^verbatim>\<open>for subgate in self._subgates\<close> loops of the
  two composites, on the loop variables \<^verbatim>\<open>(valid, num_inputs, dits)\<close> and
  \<^verbatim>\<open>(valid, num_inputs)\<close>. \<^verbatim>\<open>ProductGate.validate_structure\<close> ends with the
  assignment \<^verbatim>\<open>valid = True\<close> and no \<^verbatim>\<open>return\<close>.
\<close>

fun validate_structure :: "error + unit \<Rightarrow> gate \<Rightarrow> error + pyval"
  and kron_loop :: "error + unit \<Rightarrow> gate list \<Rightarrow> bool \<times> int \<times> int \<Rightarrow> error + bool \<times> int \<times> int"
  and prod_loop :: "error + unit \<Rightarrow> int \<Rightarrow> gate list \<Rightarrow> bool \<times> int \<Rightarrow> error + bool \<times> int"
where
  "validate_structure w (NonadjacentCNOTGate q c t U) =
     (if c \<ge> q \<or> t > q then warn_then w (PyBool False)
      else if c = t then warn_then w (PyBool False)
      else Inr (PyBool True))"
| "validate_structure w (KroneckerGate n q gs) =
     (case kron_loop w gs (True, 0, 0) of
        Inl e \<Rightarrow> Inl e
      | Inr (valid, num, dits) \<Rightarrow>
          (case (if num \<noteq> n then warn_then w False else Inr valid) of
             Inl e \<Rightarrow> Inl e
           | Inr valid1 \<Rightarrow>
               (case (if dits \<noteq> q then warn_then w False else Inr valid1) of
                  Inl e \<Rightarrow> Inl e
                | Inr valid2 \<Rightarrow> Inr (PyBool valid2))))"
| "validate_structure w (ProductGate n q gs) =
     (case prod_loop w q gs (True, 0) of
        Inl e \<Rightarrow> Inl e
      | Inr (valid, num) \<Rightarrow>
          (case (if num \<noteq> n then warn_then w False else Inr valid) of
             Inl e \<Rightarrow> Inl e
           | Inr valid1 \<Rightarrow> Inr PyNone))"
| "validate_structure w g = Inr (PyBool True)"
| "kron_loop w [] st = Inr st"
| "kron_loop w (g # gs) (valid, num, dits) =
     (case validate_structure w g of
        Inl e \<Rightarrow> Inl e
      | Inr r \<Rightarrow>
          kron_loop w gs
            (if \<not> truthy r then False else valid, num + num_inputs g, dits + qudits g))"
| "prod_loop w q [] st = Inr st"
| "prod_loop w q (g # gs) (valid, num) =
     (case (if qudits g \<noteq> q then warn_then w False else Inr valid) of
        Inl e \<Rightarrow> Inl e
      | Inr valid1 \<Rightarrow>
          (case validate_structure w g of
             Inl e \<Rightarrow> Inl e
           | Inr r \<Rightarrow>
               prod_loop w q gs (if \<not> truthy r then False else valid1, num + num_inputs g)))"

section \<open>Arrays\<close>

text \<open>
  The numpy operations the module uses, on rectangular lists of rows.
  \<^verbatim>\<open>np.matmul\<close> raises when the inner dimensions differ; \<^verbatim>\<open>np.kron\<close>, \<^verbatim>\<open>np.eye\<close>,
  \<^verbatim>\<open>np.diag\<close> and \<^verbatim>\<open>A.T.conjugate()\<close> do not raise on such arrays.
  \<^verbatim>\<open>np.matmul(X, Y, out=buf)\<close> writes the product into \<^verbatim>\<open>buf\<close> and returns it: it
  raises unless \<^verbatim>\<open>buf\<close> has the shape of the product, and it reads overlapping
  operands before it writes, so its value is the product also when \<^verbatim>\<open>buf\<close> is one of
  the operands. Of the buffer only the shape matters, so \<open>matmul_out\<close> takes any array
  of that shape for it.
\<close>

definition nrows :: "ndarray \<Rightarrow> nat" where
  "nrows A = length A"

definition ncols :: "ndarray \<Rightarrow> nat" where
  "ncols A = (case A of [] \<Rightarrow> 0 | r # _ \<Rightarrow> length r)"

definition dot :: "complex list \<Rightarrow> complex list \<Rightarrow> complex" where
  "dot r c = sum_list (map2 (*) r c)"

definition col :: "ndarray \<Rightarrow> nat \<Rightarrow> complex list" where
  "col B j = map (\<lambda>r. r ! j) B"

definition mm :: "ndarray \<Rightarrow> ndarray \<Rightarrow> ndarray" where
  "mm A B = map (\<lambda>r. map (\<lambda>j. dot r (col B j)) [0..<ncols B]) A"

definition matmul :: "ndarray \<Rightarrow> ndarray \<Rightarrow> error + ndarray" where
  "matmul A B = (if ncols A = nrows B then Inr (mm A B) else Inl ValueError)"

definition shape :: "ndarray \<Rightarrow> nat \<times> nat" where
  "shape A = (nrows A, ncols A)"

definition matmul_out :: "ndarray \<Rightarrow> ndarray \<Rightarrow> ndarray \<Rightarrow> error + ndarray" where
  "matmul_out A B buf =
     (if ncols A = nrows B \<and> shape buf = (nrows A, ncols B) then Inr (mm A B)
      else Inl ValueError)"

definition kron :: "ndarray \<Rightarrow> ndarray \<Rightarrow> ndarray" where
  "kron A B =
     concat (map (\<lambda>ra. map (\<lambda>rb. concat (map (\<lambda>a. map (\<lambda>b. a * b) rb) ra)) B) A)"

definition eye :: "nat \<Rightarrow> ndarray" where
  "eye n = map (\<lambda>i. map (\<lambda>j. if i = j then 1 else 0) [0..<n]) [0..<n]"

definition diag :: "complex list \<Rightarrow> ndarray" where
  "diag ds =
     map (\<lambda>i. map (\<lambda>j. if i = j then ds ! i else 0) [0..<length ds]) [0..<length ds]"

definition adjoint :: "ndarray \<Rightarrow> ndarray" where
  "adjoint A = map (\<lambda>j. map cnj (col A j)) [0..<ncols A]"

section \<open>Matrices and Jacobians\<close>

subsection \<open>Leaves\<close>

text \<open>The class constants \<^verbatim>\<open>_cnot\<close>, \<^verbatim>\<open>_gate\<close>, \<^verbatim>\<open>_csum\<close>, \<^verbatim>\<open>_cpi\<close> and \<^verbatim>\<open>_cnr\<close>.\<close>

definition CNOTGate_cnot :: ndarray where
  "CNOTGate_cnot = [[1,0,0,0],
                    [0,1,0,0],
                    [0,0,0,1],
                    [0,0,1,0]]"

definition CZGate_gate :: ndarray where
  "CZGate_gate = [[1,0,0,0],
                  [0,1,0,0],
                  [0,0,1,0],
                  [0,0,0,-1]]"

definition ISwapGate_gate :: ndarray where
  "ISwapGate_gate = [[1,0,0,0],
                     [0,0,\<i>,0],
                     [0,\<i>,0,0],
                     [0,0,0,1]]"

definition XXGate_gate :: ndarray where
  "XXGate_gate = map (map (\<lambda>x. of_real (1 / sqrt 2) * x))
                    [[1,0,0,-\<i>],
                     [0,1,-\<i>,0],
                     [0,-\<i>,1,0],
                     [-\<i>,0,0,1]]"

definition CSUMGate_csum :: ndarray where
  "CSUMGate_csum = [[1,0,0, 0,0,0, 0,0,0],
                    [0,1,0, 0,0,0, 0,0,0],
                    [0,0,1, 0,0,0, 0,0,0],
                    [0,0,0, 0,0,1, 0,0,0],
                    [0,0,0, 1,0,0, 0,0,0],
                    [0,0,0, 0,1,0, 0,0,0],
                    [0,0,0, 0,0,0, 0,1,0],
                    [0,0,0, 0,0,0, 1,0,0],
                    [0,0,0, 0,0,0, 0,0,1]]"

definition CPIGate_cpi :: ndarray where
  "CPIGate_cpi = [[1,0,0, 0,0,0, 0,0,0],
                  [0,1,0, 0,0,0, 0,0,0],
                  [0,0,1, 0,0,0, 0,0,0],
                  [0,0,0, 0,1,0, 0,0,0],
                  [0,0,0, 1,0,0, 0,0,0],
                  [0,0,0, 0,0,1, 0,0,0],
                  [0,0,0, 0,0,0, 1,0,0],
                  [0,0,0, 0,0,0, 0,1,0],
                  [0,0,0, 0,0,0, 0,0,1]]"

definition CNOTRootGate_cnr :: ndarray where
  "CNOTRootGate_cnr = [[1,0,0,0],
                       [0,1,0,0],
                       [0,0,Complex 0.5 0.5,Complex 0.5 (-0.5)],
                       [0,0,Complex 0.5 (-0.5),Complex 0.5 0.5]]"

text \<open>
  \<^verbatim>\<open>CPIPhaseGate.__init__\<close>. \<open>rng k\<close> is what the \<open>k\<close>-th call of
  \<^verbatim>\<open>np.random.random()\<close> returns, a number in \<open>[0, 1)\<close>; the comprehension calls it
  for \<open>k = 0, \<dots>, 4\<close>. \<open>np_exp r\<close> is the number that the expression
  \<^verbatim>\<open>np.exp(2j * r * np.pi)\<close> evaluates to in double precision at the draw \<open>r\<close>. It is an
  input here, not computed: it is close to \<open>exp (2 \<i> r \<pi>)\<close> and need not tell two draws
  apart. The product with the array of zeros, ones and one \<open>-1\<close> moves these numbers
  without rounding.
\<close>

definition CPIPhaseGate_base :: ndarray where
  "CPIPhaseGate_base = [[1,0,0, 0,0,0, 0,0,0],
                        [0,1,0, 0,0,0, 0,0,0],
                        [0,0,1, 0,0,0, 0,0,0],
                        [0,0,0, 0,-1,0, 0,0,0],
                        [0,0,0, 1,0,0, 0,0,0],
                        [0,0,0, 0,0,1, 0,0,0],
                        [0,0,0, 0,0,0, 1,0,0],
                        [0,0,0, 0,0,0, 0,1,0],
                        [0,0,0, 0,0,0, 0,0,1]]"

definition CPIPhaseGate_init :: "(real \<Rightarrow> complex) \<Rightarrow> (nat \<Rightarrow> real) \<Rightarrow> error + gate" where
  "CPIPhaseGate_init np_exp rng =
     (let diag_mod = diag (replicate 4 1 @ map (\<lambda>k. np_exp (rng k)) [0..<5])
      in case matmul CPIPhaseGate_base diag_mod of
           Inl e \<Rightarrow> Inl e
         | Inr cpi \<Rightarrow> Inr (CPIPhaseGate cpi))"

text \<open>\<^verbatim>\<open>U3Gate.matrix\<close> and \<^verbatim>\<open>U3Gate.mat_jac\<close>; \<^verbatim>\<open>v[k]\<close> raises on a short vector.\<close>

definition U3Gate_matrix :: "real list \<Rightarrow> error + ndarray" where
  "U3Gate_matrix v =
     (if length v < 3 then Inl IndexError
      else
        let ct = complex_of_real (cos (v ! 0 / 2));
            st = complex_of_real (sin (v ! 0 / 2));
            cp = complex_of_real (cos (v ! 1));
            sp = complex_of_real (sin (v ! 1));
            cl = complex_of_real (cos (v ! 2));
            sl = complex_of_real (sin (v ! 2))
        in Inr [[ct, - st * (cl + \<i> * sl)],
                [st * (cp + \<i> * sp), ct * (cl * cp - sl * sp + \<i> * cl * sp + \<i> * sl * cp)]])"

definition U3Gate_mat_jac :: "real list \<Rightarrow> error + ndarray \<times> ndarray list" where
  "U3Gate_mat_jac v =
     (if length v < 3 then Inl IndexError
      else
        let ct = complex_of_real (cos (v ! 0 / 2));
            st = complex_of_real (sin (v ! 0 / 2));
            cp = complex_of_real (cos (v ! 1));
            sp = complex_of_real (sin (v ! 1));
            cl = complex_of_real (cos (v ! 2));
            sl = complex_of_real (sin (v ! 2));
            U = [[ct, - st * (cl + \<i> * sl)],
                 [st * (cp + \<i> * sp), ct * (cl * cp - sl * sp + \<i> * cl * sp + \<i> * sl * cp)]];
            J1 = [[- 0.5 * st, - 0.5 * ct * (cl + \<i> * sl)],
                  [0.5 * ct * (cp + \<i> * sp),
                   - 0.5 * st * (cl * cp - sl * sp + \<i> * cl * sp + \<i> * sl * cp)]];
            J2 = [[0, 0],
                  [st * (- sp + \<i> * cp),
                   ct * (cl * - sp - sl * cp + \<i> * cl * cp + \<i> * sl * - sp)]];
            J3 = [[0, - st * (- sl + \<i> * cl)],
                  [0, ct * (- sl * cp - cl * sp + \<i> * - sl * sp + \<i> * cl * cp)]]
        in Inr (U, [J1, J2, J3]))"

text \<open>
  The \<^verbatim>\<open>matrix\<close> and \<^verbatim>\<open>mat_jac\<close> methods of the other parameterised leaves
  (\<^verbatim>\<open>XGate\<close>, \<^verbatim>\<open>YGate\<close>, \<^verbatim>\<open>ZGate\<close>, \<^verbatim>\<open>ZXZXZGate\<close>, \<^verbatim>\<open>XZXZGate\<close>, \<^verbatim>\<open>U2Gate\<close>,
  \<^verbatim>\<open>U1Gate\<close>, \<^verbatim>\<open>SingleQutritGate\<close>) are parameters: most of them call the modules
  \<^verbatim>\<open>unitaries\<close> and \<^verbatim>\<open>utils\<close>, and what is proved below holds whatever they compute.
\<close>

record leaves =
  leaf_matrix :: "gate \<Rightarrow> real list \<Rightarrow> error + ndarray"
  leaf_mat_jac :: "gate \<Rightarrow> real list \<Rightarrow> error + ndarray \<times> ndarray list"

subsection \<open>Composites\<close>

text \<open>
  The loop both composites start with: each child is called on its slice
  \<^verbatim>\<open>v[index:index+gate.num_inputs]\<close>, and \<^verbatim>\<open>index\<close> moves on by the child's count.
\<close>

fun gather :: "(gate \<Rightarrow> real list \<Rightarrow> error + 'r) \<Rightarrow> gate list \<Rightarrow> real list \<Rightarrow> int \<Rightarrow> error + 'r list" where
  "gather f [] v index = Inr []"
| "gather f (g # gs) v index =
     (case f g (py_slice v index (index + num_inputs g)) of
        Inl e \<Rightarrow> Inl e
      | Inr r \<Rightarrow>
          (case gather f gs v (index + num_inputs g) of
             Inl e \<Rightarrow> Inl e
           | Inr rs \<Rightarrow> Inr (r # rs)))"

lemma gather_ext:
  "(\<And>g w. g \<in> set gs \<Longrightarrow> f g w = f' g w) \<Longrightarrow> gather f gs v i = gather f' gs v i"
  by (induction gs arbitrary: i) (auto split: sum.splits)

lemma gather_cong [fundef_cong]:
  "gs = gs' \<Longrightarrow> v = v' \<Longrightarrow> i = i' \<Longrightarrow> (\<And>g w. g \<in> set gs' \<Longrightarrow> f g w = f' g w)
   \<Longrightarrow> gather f gs v i = gather f' gs' v' i'"
  using gather_ext [of gs' f f' v' i'] by simp

text \<open>
  \<^verbatim>\<open>for matrix in matrices[1:]: U = np.matmul(matrix, U, out=buffer1)\<close>; the three
  assignments after it leave \<^verbatim>\<open>buffer1\<close> the same array, a copy of \<^verbatim>\<open>matrices[0]\<close>.
\<close>

fun chain_left :: "ndarray \<Rightarrow> ndarray \<Rightarrow> ndarray list \<Rightarrow> error + ndarray" where
  "chain_left buffer1 U [] = Inr U"
| "chain_left buffer1 U (M # Ms) =
     (case matmul_out M U buffer1 of
        Inl e \<Rightarrow> Inl e
      | Inr U' \<Rightarrow> chain_left buffer1 U' Ms)"

text \<open>
  The second loop of \<^verbatim>\<open>KroneckerGate.mat_jac\<close>, on the loop variables
  \<^verbatim>\<open>(U, jacs)\<close>; \<^verbatim>\<open>U\<close> is \<^verbatim>\<open>None\<close> before the first child.
\<close>

fun kron_jac_loop ::
  "ndarray option \<times> ndarray list \<Rightarrow> (ndarray \<times> ndarray list) list \<Rightarrow> ndarray option \<times> ndarray list" where
  "kron_jac_loop st [] = st"
| "kron_jac_loop (U, jacs) ((M, Js) # rest) =
     kron_jac_loop
       (Some (case U of None \<Rightarrow> M | Some U' \<Rightarrow> kron U' M),
        map (\<lambda>J. kron J M) jacs @ map (\<lambda>J. case U of None \<Rightarrow> J | Some U' \<Rightarrow> kron U' J) Js)
       rest"

text \<open>
  The last loop of \<^verbatim>\<open>ProductGate.mat_jac\<close>, on \<^verbatim>\<open>(A, B, jacs)\<close>; \<open>jac_terms\<close> is
  its inner loop over the Jacobians of one child. \<^verbatim>\<open>enumerate(subjacs)\<close> with
  \<^verbatim>\<open>submats[i]\<close> walks the two lists in step, here the list of pairs. The buffers
  \<^verbatim>\<open>ba1\<close> and \<^verbatim>\<open>ba2\<close> are one copy of \<^verbatim>\<open>submats[0]\<close> after the first loop,
  \<^verbatim>\<open>bb1\<close>, \<^verbatim>\<open>bb2\<close> and \<^verbatim>\<open>bj\<close> are the first \<^verbatim>\<open>B\<close> and copies of it, and
  \<^verbatim>\<open>bb1\<close> is never the array \<^verbatim>\<open>B\<close> names when it is written; each product of a
  Jacobian is written over that Jacobian (\<^verbatim>\<open>out=J\<close>).
\<close>

fun jac_terms :: "ndarray \<Rightarrow> ndarray \<Rightarrow> ndarray \<Rightarrow> ndarray list \<Rightarrow> error + ndarray list" where
  "jac_terms bj A B [] = Inr []"
| "jac_terms bj A B (J # Js) =
     (case matmul_out J B bj of
        Inl e \<Rightarrow> Inl e
      | Inr tmp \<Rightarrow>
          (case matmul_out A tmp J of
             Inl e \<Rightarrow> Inl e
           | Inr X \<Rightarrow>
               (case jac_terms bj A B Js of Inl e \<Rightarrow> Inl e | Inr Xs \<Rightarrow> Inr (X # Xs))))"

fun prod_jac_loop ::
  "ndarray \<Rightarrow> ndarray \<Rightarrow> ndarray \<Rightarrow> ndarray \<Rightarrow> ndarray \<Rightarrow> ndarray list \<Rightarrow>
   (ndarray \<times> ndarray list) list \<Rightarrow> error + ndarray \<times> ndarray list" where
  "prod_jac_loop ba1 bb1 bj A B jacs [] = Inr (B, jacs)"
| "prod_jac_loop ba1 bb1 bj A B jacs ((M, Js) # rest) =
     (case matmul_out A (adjoint M) ba1 of
        Inl e \<Rightarrow> Inl e
      | Inr A' \<Rightarrow>
          (case jac_terms bj A' B Js of
             Inl e \<Rightarrow> Inl e
           | Inr new \<Rightarrow>
               (case matmul_out M B bb1 of
                  Inl e \<Rightarrow> Inl e
                | Inr B' \<Rightarrow> prod_jac_loop ba1 bb1 bj A' B' (jacs @ new) rest)))"

text \<open>\<^verbatim>\<open>matrix(self, v)\<close>, by class.\<close>

fun matrix :: "leaves \<Rightarrow> gate \<Rightarrow> real list \<Rightarrow> error + ndarray" where
  "matrix L (KroneckerGate n q gs) v =
     (if length gs < 2 then (case gs of [] \<Rightarrow> Inl IndexError | g # _ \<Rightarrow> matrix L g v)
      else
        (case gather (matrix L) gs v 0 of
           Inl e \<Rightarrow> Inl e
         | Inr matrices \<Rightarrow>
             (case matrices of [] \<Rightarrow> Inl IndexError | U # rest \<Rightarrow> Inr (foldl kron U rest))))"
| "matrix L (ProductGate n q gs) v =
     (if length gs < 2 then (case gs of [] \<Rightarrow> Inl IndexError | g # _ \<Rightarrow> matrix L g v)
      else
        (case gather (matrix L) gs v 0 of
           Inl e \<Rightarrow> Inl e
         | Inr matrices \<Rightarrow>
             (case matrices of [] \<Rightarrow> Inl IndexError | U # rest \<Rightarrow> chain_left U U rest)))"
| "matrix L (IdentityGate q d I) v = Inr I"
| "matrix L U3Gate v = U3Gate_matrix v"
| "matrix L CSUMGate v = Inr CSUMGate_csum"
| "matrix L CPIGate v = Inr CPIGate_cpi"
| "matrix L (CPIPhaseGate cpi) v = Inr cpi"
| "matrix L CNOTGate v = Inr CNOTGate_cnot"
| "matrix L CZGate v = Inr CZGate_gate"
| "matrix L ISwapGate v = Inr ISwapGate_gate"
| "matrix L XXGate v = Inr XXGate_gate"
| "matrix L (NonadjacentCNOTGate q c t U) v = Inr U"
| "matrix L (UGate U d q) v = Inr U"
| "matrix L (UpgradedConstantGate g df U) v = Inr U"
| "matrix L (CUGate U f CU) v = Inr CU"
| "matrix L CNOTRootGate v = Inr CNOTRootGate_cnr"
| "matrix L g v = leaf_matrix L g v"

text \<open>
  \<^verbatim>\<open>mat_jac(self, v)\<close>, by class. The classes that do not define it inherit
  \<^verbatim>\<open>Gate.mat_jac\<close> (the last equation). In \<^verbatim>\<open>KroneckerGate.mat_jac\<close> the loop
  runs at least twice, so \<^verbatim>\<open>U\<close> is an array when it is returned.
\<close>

fun mat_jac :: "leaves \<Rightarrow> gate \<Rightarrow> real list \<Rightarrow> error + ndarray \<times> ndarray list" where
  "mat_jac L (KroneckerGate n q gs) v =
     (if length gs < 2 then (case gs of [] \<Rightarrow> Inl IndexError | g # _ \<Rightarrow> mat_jac L g v)
      else
        (case gather (mat_jac L) gs v 0 of
           Inl e \<Rightarrow> Inl e
         | Inr matjacs \<Rightarrow>
             (case kron_jac_loop (None, []) matjacs of
                (None, jacs) \<Rightarrow> Inl TypeError
              | (Some U, jacs) \<Rightarrow> Inr (U, jacs))))"
| "mat_jac L (ProductGate n q gs) v =
     (if length gs < 2 then (case gs of [] \<Rightarrow> Inl IndexError | g # _ \<Rightarrow> mat_jac L g v)
      else
        (case gather (mat_jac L) gs v 0 of
           Inl e \<Rightarrow> Inl e
         | Inr matjacs \<Rightarrow>
             (case map fst matjacs of
                [] \<Rightarrow> Inl IndexError
              | U0 # rest \<Rightarrow>
                  (let B = eye (nrows U0)
                   in case chain_left U0 U0 rest of
                        Inl e \<Rightarrow> Inl e
                      | Inr A \<Rightarrow> prod_jac_loop U0 B B A B [] matjacs))))"
| "mat_jac L U3Gate v = U3Gate_mat_jac v"
| "mat_jac L XGate v = leaf_mat_jac L XGate v"
| "mat_jac L YGate v = leaf_mat_jac L YGate v"
| "mat_jac L ZGate v = leaf_mat_jac L ZGate v"
| "mat_jac L ZXZXZGate v = leaf_mat_jac L ZXZXZGate v"
| "mat_jac L XZXZGate v = leaf_mat_jac L XZXZGate v"
| "mat_jac L U2Gate v = leaf_mat_jac L U2Gate v"
| "mat_jac L U1Gate v = leaf_mat_jac L U1Gate v"
| "mat_jac L SingleQutritGate v = leaf_mat_jac L SingleQutritGate v"
| "mat_jac L g v =
     (if num_inputs g = 0
      then (case matrix L g v of Inl e \<Rightarrow> Inl e | Inr U \<Rightarrow> Inr (U, []))
      else Inl NotImplementedError)"

section \<open>Objects reachable by construction\<close>

text \<open>
  \<open>flat g\<close>: nowhere in the tree \<open>g\<close> does a \<^verbatim>\<open>ProductGate\<close> hold a
  \<^verbatim>\<open>ProductGate\<close> in its \<^verbatim>\<open>_subgates\<close>. \<open>built g\<close>: the object \<open>g\<close> can be made
  with the constructors and the methods \<^verbatim>\<open>appending\<close> and \<^verbatim>\<open>inserting\<close>, without
  assigning to a field afterwards.
\<close>

fun flat :: "gate \<Rightarrow> bool" where
  "flat (ProductGate n q gs) = list_all (\<lambda>g. type_name g \<noteq> ''ProductGate'' \<and> flat g) gs"
| "flat (KroneckerGate n q gs) = list_all flat gs"
| "flat (UpgradedConstantGate g df U) = flat g"
| "flat g = True"

definition composite :: "gate \<Rightarrow> bool" where
  "composite g \<longleftrightarrow>
     type_name g \<in> set [''KroneckerGate'', ''ProductGate'', ''UpgradedConstantGate'']"

inductive built :: "gate \<Rightarrow> bool" where
  built_leaf: "\<not> composite g \<Longrightarrow> built g"
| built_upgraded: "built g \<Longrightarrow> built (UpgradedConstantGate g df U)"
| built_kron: "\<forall>g\<in>set gs. built g \<Longrightarrow> built (KroneckerGate_init gs)"
| built_prod: "\<forall>g\<in>set gs. built g \<Longrightarrow> built (ProductGate_init gs)"
| built_kron_appending:
    "built p \<Longrightarrow> type_name p = ''KroneckerGate'' \<Longrightarrow> built g \<Longrightarrow> built (KroneckerGate_appending p g)"
| built_appending:
    "built p \<Longrightarrow> type_name p = ''ProductGate'' \<Longrightarrow> \<forall>g\<in>set gs. built g \<Longrightarrow> built (appending p gs)"
| built_inserting:
    "built p \<Longrightarrow> type_name p = ''ProductGate'' \<Longrightarrow> \<forall>g\<in>set gs. built g
     \<Longrightarrow> built (inserting p gs depth)"

section \<open>What the composites are to compute\<close>

text \<open>
  The parameter vector cut into contiguous pieces, one per child and as long as the
  child's parameter count, and the children's method \<open>f\<close> run on these pieces in order.
\<close>

fun param_slices :: "nat list \<Rightarrow> real list \<Rightarrow> real list list" where
  "param_slices [] v = []"
| "param_slices (n # ns) v = take n v # param_slices ns (drop n v)"

definition child_slices :: "gate list \<Rightarrow> real list \<Rightarrow> real list list" where
  "child_slices gs v = param_slices (map (\<lambda>g. nat (num_inputs g)) gs) v"

definition on_slices :: "(gate \<Rightarrow> real list \<Rightarrow> error + 'r) \<Rightarrow> gate list \<Rightarrow> real list \<Rightarrow> error + 'r list" where
  "on_slices f gs v = those_err (map2 f gs (child_slices gs v))"

text \<open>
  The Kronecker product of a list of arrays taken from the left,
  \<open>(\<dots>((M\<^sub>1 \<otimes> M\<^sub>2) \<otimes> M\<^sub>3) \<dots>) \<otimes> M\<^sub>n\<close>, and the product of a list of arrays in circuit
  order, \<open>M\<^sub>n \<cdot> (\<dots> \<cdot> (M\<^sub>2 \<cdot> M\<^sub>1))\<close>, each new factor multiplied on the left. Both are
  written by recursion on the reversed list, last factor first.
\<close>

fun kron_chain :: "ndarray list \<Rightarrow> ndarray" where
  "kron_chain [] = [[1]]"
| "kron_chain [M] = M"
| "kron_chain (M # Ms) = kron (kron_chain Ms) M"

definition kron_all :: "ndarray list \<Rightarrow> ndarray" where
  "kron_all Ms = kron_chain (rev Ms)"

fun circuit_chain :: "ndarray list \<Rightarrow> error + ndarray" where
  "circuit_chain [] = Inl IndexError"
| "circuit_chain [M] = Inr M"
| "circuit_chain (M # Ms) = (case circuit_chain Ms of Inl e \<Rightarrow> Inl e | Inr P \<Rightarrow> matmul M P)"

definition circuit_product :: "ndarray list \<Rightarrow> error + ndarray" where
  "circuit_product Ms = circuit_chain (rev Ms)"

text \<open>
  The Jacobians of a Kronecker composite, given each child's pair of matrix and Jacobians:
  for child \<open>k\<close> and each of its Jacobians \<open>J\<close>, in order, the Kronecker product of all
  the children's matrices with the \<open>k\<close>-th replaced by \<open>J\<close>.
\<close>

definition kron_jacs :: "(ndarray \<times> ndarray list) list \<Rightarrow> ndarray list" where
  "kron_jacs MJs =
     concat (map (\<lambda>k. map (\<lambda>J. kron_all ((map fst MJs)[k := J])) (snd (MJs ! k)))
               [0..<length MJs])"

text \<open>
  Arrays of shape \<open>(d, d)\<close>, and those among them whose product with their conjugate
  transpose is the identity. \<open>mat_prod d Ms\<close> is the product \<open>M\<^sub>n \<cdots> M\<^sub>1\<close> of such arrays, the
  identity for no factor.
\<close>

definition square :: "nat \<Rightarrow> ndarray \<Rightarrow> bool" where
  "square d A \<longleftrightarrow> length A = d \<and> list_all (\<lambda>r. length r = d) A"

definition unitary :: "nat \<Rightarrow> ndarray \<Rightarrow> bool" where
  "unitary d A \<longleftrightarrow> square d A \<and> mm A (adjoint A) = eye d"

definition mat_prod :: "nat \<Rightarrow> ndarray list \<Rightarrow> ndarray" where
  "mat_prod d Ms = foldl (\<lambda>P M. mm M P) (eye d) Ms"

text \<open>
  The Jacobians of a product composite: for child \<open>k\<close> and each of its Jacobians \<open>J\<close>, in
  order, (the product of the children after \<open>k\<close>) \<open>\<cdot>\<close> \<open>J\<close> \<open>\<cdot>\<close> (the product of the children
  before \<open>k\<close>). A child's result conforms when its matrix is unitary and its Jacobians have
  the matrix's shape.
\<close>

definition prod_jacs :: "nat \<Rightarrow> (ndarray \<times> ndarray list) list \<Rightarrow> ndarray list" where
  "prod_jacs d MJs =
     concat (map (\<lambda>k. map (\<lambda>J. mm (mat_prod d (drop (Suc k) (map fst MJs)))
                                  (mm J (mat_prod d (take k (map fst MJs)))))
                         (snd (MJs ! k)))
               [0..<length MJs])"

definition conforming :: "nat \<Rightarrow> ndarray \<times> ndarray list \<Rightarrow> bool" where
  "conforming d MJ \<longleftrightarrow> unitary d (fst MJ) \<and> list_all (square d) (snd MJ)"



text \<open>
  \<open>has_jacobian d f J t\<^sub>0\<close>: the method \<open>f\<close> of one real parameter returns an array of shape
  \<open>(d, d)\<close> at every value of the parameter, and \<open>J\<close> is the derivative of that array at
  \<open>t\<^sub>0\<close>, entry by entry.
\<close>

definition has_jacobian :: "nat \<Rightarrow> (real \<Rightarrow> error + ndarray) \<Rightarrow> ndarray \<Rightarrow> real \<Rightarrow> bool" where
  "has_jacobian d f J t0 \<longleftrightarrow>
     (\<exists>F. (\<forall>t. f t = Inr (F t) \<and> square d (F t)) \<and>
          (\<forall>a<d. \<forall>b<d. ((\<lambda>t. F t ! a ! b) has_vector_derivative J ! a ! b) (at t0)))"

text \<open>The number that \<^verbatim>\<open>np.exp(2j * r * np.pi)\<close> approximates at a draw \<open>r\<close>.\<close>

definition phase :: "real \<Rightarrow> complex" where
  "phase r = exp (2 * \<i> * of_real r * of_real pi)"

text \<open>
  A value for the leaf parameter in closed examples, for gates whose methods are none of
  the parameter's.
\<close>

definition unmodelled :: leaves where
  "unmodelled = \<lparr>leaf_matrix = (\<lambda>g v. Inl NotImplementedError),
                  leaf_mat_jac = (\<lambda>g v. Inl NotImplementedError)\<rparr>"

section \<open>Properties\<close>

lemmas slice_defs = slice_to_def slice_from_def clamp_index_def py_slice_def

subsection \<open>Construction and flattening\<close>

text \<open>What one argument of \<^verbatim>\<open>ProductGate(...)\<close> adds to the child list.\<close>

lemma absorb_concat:
  "absorb acc gs =
     acc @ concat (map (\<lambda>g. if type_name g = ''ProductGate'' then subgates g else [g]) gs)"
  by (induction gs arbitrary: acc) auto

lemma type_name_ProductGate:
  "type_name g = ''ProductGate'' \<longleftrightarrow> (\<exists>n q cs. g = ProductGate n q cs)"
  by (cases g) auto

lemma type_name_KroneckerGate:
  "type_name g = ''KroneckerGate'' \<longleftrightarrow> (\<exists>n q cs. g = KroneckerGate n q cs)"
  by (cases g) auto

lemma absorbed_flat:
  assumes "flat g" "c \<in> set (if type_name g = ''ProductGate'' then subgates g else [g])"
  shows "type_name c \<noteq> ''ProductGate'' \<and> flat c"
proof (cases "type_name g = ''ProductGate''")
  case True
  then obtain n q cs where g: "g = ProductGate n q cs"
    unfolding type_name_ProductGate by blast
  from assms(2) have "c \<in> set cs" unfolding g by simp
  moreover from assms(1) have "\<forall>x\<in>set cs. type_name x \<noteq> ''ProductGate'' \<and> flat x"
    unfolding g by (simp add: list_all_iff)
  ultimately show ?thesis by blast
next
  case False
  with assms show ?thesis by simp
qed

lemma flat_ProductGate_init:
  assumes "\<forall>g\<in>set gs. flat g"
  shows "flat (ProductGate_init gs)"
proof -
  have "type_name c \<noteq> ''ProductGate'' \<and> flat c"
    if "c \<in> set (absorb [] gs)" for c
  proof -
    from that obtain g where "g \<in> set gs"
      "c \<in> set (if type_name g = ''ProductGate'' then subgates g else [g])"
      unfolding absorb_concat by auto
    with assms show ?thesis using absorbed_flat [of g c] by blast
  qed
  then show ?thesis
    unfolding ProductGate_init_def by (simp add: list_all_iff)
qed

lemma flat_children:
  "flat (ProductGate n q cs) \<Longrightarrow> c \<in> set cs \<Longrightarrow> flat c"
  by (auto simp: list_all_iff)

lemma built_flat: "built g \<Longrightarrow> flat g"
proof (induction rule: built.induct)
  case (built_leaf g)
  then show ?case by (cases g) (auto simp: composite_def)
next
  case (built_upgraded g df U)
  then show ?case by simp
next
  case (built_kron gs)
  then show ?case by (auto simp: KroneckerGate_init_def list_all_iff)
next
  case (built_prod gs)
  then show ?case by (intro flat_ProductGate_init) blast
next
  case (built_kron_appending p g)
  then obtain n q cs where "p = KroneckerGate n q cs"
    by (auto simp: type_name_KroneckerGate)
  with built_kron_appending show ?case
    by (auto simp: KroneckerGate_init_def list_all_iff)
next
  case (built_appending p gs)
  then obtain n q cs where p: "p = ProductGate n q cs"
    by (auto simp: type_name_ProductGate)
  with built_appending have "\<forall>g\<in>set (cs @ gs). flat g"
    by (auto simp: list_all_iff)
  then show ?case unfolding p appending.simps by (rule flat_ProductGate_init)
next
  case (built_inserting p gs depth)
  then obtain n q cs where p: "p = ProductGate n q cs"
    by (auto simp: type_name_ProductGate)
  with built_inserting
  have "\<forall>g\<in>set (slice_to cs depth @ gs @ slice_from cs depth). flat g"
    by (auto simp: slice_to_def slice_from_def list_all_iff dest: in_set_takeD in_set_dropD)
  then show ?case unfolding p inserting.simps by (rule flat_ProductGate_init)
qed

text \<open>
  C8. \<^verbatim>\<open>ProductGate(...)\<close> replaces each argument of type \<^verbatim>\<open>ProductGate\<close> by that
  argument's children and keeps the other arguments, in order; in every object made
  with the constructors, \<^verbatim>\<open>appending\<close> and \<^verbatim>\<open>inserting\<close> no \<^verbatim>\<open>ProductGate\<close> has a
  \<^verbatim>\<open>ProductGate\<close> child; \<^verbatim>\<open>KroneckerGate(...)\<close> keeps its arguments as they are, a
  \<^verbatim>\<open>KroneckerGate\<close> among them included.
\<close>

theorem C8_flattening:
  "subgates (ProductGate_init gs) =
     concat (map (\<lambda>g. if type_name g = ''ProductGate'' then subgates g else [g]) gs)
   \<and> (built g \<longrightarrow> flat g)
   \<and> subgates (KroneckerGate_init gs) = gs"
  using built_flat [of g] by (simp add: ProductGate_init_def KroneckerGate_init_def absorb_concat)

theorem C8_flattening_witness:
  "built (inserting (ProductGate_init [ProductGate_init [XGate, YGate], ZGate])
            [ProductGate_init [U3Gate, CNOTGate]] 1)
   \<and> flat (inserting (ProductGate_init [ProductGate_init [XGate, YGate], ZGate])
            [ProductGate_init [U3Gate, CNOTGate]] 1)
   \<and> subgates (inserting (ProductGate_init [ProductGate_init [XGate, YGate], ZGate])
            [ProductGate_init [U3Gate, CNOTGate]] 1)
       = [XGate, U3Gate, CNOTGate, YGate, ZGate]
   \<and> subgates (ProductGate_init [ProductGate_init [XGate, YGate], ZGate]) = [XGate, YGate, ZGate]
   \<and> subgates (KroneckerGate_init [KroneckerGate_init [XGate, YGate], ZGate])
       = [KroneckerGate 2 2 [XGate, YGate], ZGate]"
proof -
  let ?p = "ProductGate_init [ProductGate_init [XGate, YGate], ZGate]"
  let ?g = "inserting ?p [ProductGate_init [U3Gate, CNOTGate]] 1"
  have leaf: "built XGate" "built YGate" "built ZGate" "built U3Gate" "built CNOTGate"
    by (simp_all add: built_leaf composite_def)
  have "built (ProductGate_init [XGate, YGate])" "built (ProductGate_init [U3Gate, CNOTGate])"
    using leaf by (simp_all add: built_prod)
  moreover from this leaf have "built ?p" by (simp add: built_prod)
  moreover have "type_name ?p = ''ProductGate''" by (simp add: ProductGate_init_def)
  ultimately have b: "built ?g" by (simp add: built_inserting)
  with C8_flattening [of "[ProductGate_init [XGate, YGate], ZGate]" ?g] show ?thesis
    by (simp add: ProductGate_init_def KroneckerGate_init_def slice_defs)
qed

text \<open>
  C9. \<^verbatim>\<open>inserting\<close> with the default \<^verbatim>\<open>depth=-1\<close> splits the children at
  \<^verbatim>\<open>[:-1]\<close> and \<^verbatim>\<open>[-1:]\<close>: the new gates go in front of the last child, not in
  front of all children. The receiver is a value and stays as it was.
\<close>

theorem C9_inserting_default_depth:
  "inserting (ProductGate_init [XGate, YGate]) [ZGate] (- 1) = ProductGate 3 1 [XGate, ZGate, YGate]
   \<and> subgates (inserting (ProductGate_init [XGate, YGate]) [ZGate] (- 1)) \<noteq> [ZGate, XGate, YGate]"
  by (simp add: ProductGate_init_def slice_defs)

subsection \<open>Structural validation\<close>

lemma ProductGate_validate_no_bool:
  "validate_structure w (ProductGate n q gs) \<noteq> Inr (PyBool b)"
  by (auto split: sum.splits prod.splits)

text \<open>
  C6. \<^verbatim>\<open>ProductGate.validate_structure\<close> never returns a bool. On a consistent
  node it falls off its end and returns \<^verbatim>\<open>None\<close>; on a qudit or parameter count
  mismatch the call of the unbound \<^verbatim>\<open>warn\<close> raises \<^verbatim>\<open>NameError\<close>, and with a working
  \<^verbatim>\<open>warn\<close> the result is again \<^verbatim>\<open>None\<close>.
\<close>

theorem C6_ProductGate_validate:
  "validate_structure unbound_warn (ProductGate_init [XGate, YGate]) = Inr PyNone
   \<and> validate_structure unbound_warn (ProductGate 2 1 [XGate, CNOTGate]) = Inl NameError
   \<and> validate_structure unbound_warn (ProductGate 5 1 [XGate, YGate]) = Inl NameError
   \<and> validate_structure (Inr ()) (ProductGate 5 1 [XGate, CNOTGate]) = Inr PyNone"
  by (simp add: ProductGate_init_def unbound_warn_def warn_then_def)

text \<open>
  C7. \<^verbatim>\<open>NonadjacentCNOTGate.validate_structure\<close> accepts a target equal to the qudit
  count and negative indices, and where it detects a fault (control out of range, control
  equal to target) the call of the unbound \<^verbatim>\<open>warn\<close> raises \<^verbatim>\<open>NameError\<close> instead of
  returning \<^verbatim>\<open>False\<close>.
\<close>

theorem C7_NonadjacentCNOT_validate:
  "validate_structure unbound_warn (NonadjacentCNOTGate 3 0 3 U) = Inr (PyBool True)
   \<and> validate_structure (Inr ()) (NonadjacentCNOTGate 3 0 3 U) = Inr (PyBool True)
   \<and> validate_structure unbound_warn (NonadjacentCNOTGate 3 (- 1) 2 U) = Inr (PyBool True)
   \<and> validate_structure unbound_warn (NonadjacentCNOTGate 2 1 1 U) = Inl NameError
   \<and> validate_structure unbound_warn (NonadjacentCNOTGate 2 2 0 U) = Inl NameError"
  by (simp add: unbound_warn_def warn_then_def)

subsection \<open>Slicing the parameter vector\<close>

lemma py_slice_take_drop:
  "0 \<le> i \<Longrightarrow> 0 \<le> n \<Longrightarrow> py_slice v i (i + n) = take (nat n) (drop (nat i) v)"
  by (auto simp: py_slice_def clamp_index_def min_def nat_add_distrib)

lemma gather_slices:
  assumes "\<forall>g\<in>set gs. 0 \<le> num_inputs g" "0 \<le> i"
  shows "gather f gs v i = on_slices f gs (drop (nat i) v)"
  using assms
proof (induction gs arbitrary: i)
  case Nil
  then show ?case by (simp add: on_slices_def child_slices_def)
next
  case (Cons g gs)
  then have n: "0 \<le> num_inputs g" and rest: "\<forall>g\<in>set gs. 0 \<le> num_inputs g" by auto
  have "gather f gs v (i + num_inputs g) = on_slices f gs (drop (nat (i + num_inputs g)) v)"
    using Cons.IH [OF rest, of "i + num_inputs g"] Cons.prems(2) n by simp
  moreover have "drop (nat (i + num_inputs g)) v = drop (nat (num_inputs g)) (drop (nat i) v)"
    using Cons.prems(2) n by (simp add: nat_add_distrib add.commute)
  ultimately show ?case
    using py_slice_take_drop [OF Cons.prems(2) n, of v]
    by (cases "f g (take (nat (num_inputs g)) (drop (nat i) v))")
       (simp_all add: on_slices_def child_slices_def)
qed

lemma gather_on_slices:
  "\<forall>g\<in>set gs. 0 \<le> num_inputs g \<Longrightarrow> gather f gs v 0 = on_slices f gs v"
  using gather_slices [of gs 0 f v] by simp

lemma those_err_map_Inr: "those_err (map Inr xs) = Inr xs"
  by (induction xs) auto

lemma those_err_InrD: "those_err rs = Inr xs \<Longrightarrow> rs = map Inr xs"
proof (induction rs arbitrary: xs)
  case Nil
  then show ?case by simp
next
  case (Cons r rs)
  then show ?case by (cases r) (auto split: sum.splits)
qed

lemma those_err_Inr: "those_err rs = Inr xs \<longleftrightarrow> rs = map Inr xs"
  using those_err_InrD those_err_map_Inr by blast

lemma those_err_length: "those_err rs = Inr xs \<Longrightarrow> length xs = length rs"
  by (auto dest: those_err_InrD)

lemma param_slices_length: "length (param_slices ns v) = length ns"
  by (induction ns arbitrary: v) auto

lemma on_slices_length: "on_slices f gs v = Inr rs \<Longrightarrow> length rs = length gs"
  unfolding on_slices_def child_slices_def
  by (drule those_err_length) (simp add: param_slices_length)

lemma on_slices_single:
  "0 \<le> num_inputs g \<Longrightarrow> int (length v) = num_inputs g \<Longrightarrow>
   on_slices f [g] v = (case f g v of Inl e \<Rightarrow> Inl e | Inr r \<Rightarrow> Inr [r])"
  by (cases "f g v") (simp_all add: on_slices_def child_slices_def)

subsection \<open>Folding the children's matrices\<close>

lemma kron_all_snoc: "Ms \<noteq> [] \<Longrightarrow> kron_all (Ms @ [M]) = kron (kron_all Ms) M"
  by (cases "rev Ms") (simp_all add: kron_all_def)

lemma kron_all_single: "kron_all [M] = M"
  by (simp add: kron_all_def)

lemma foldl_kron_all: "foldl kron U rest = kron_all (U # rest)"
proof (induction rest rule: rev_induct)
  case Nil
  show ?case by (simp add: kron_all_single)
next
  case (snoc M rest)
  then show ?case using kron_all_snoc [of "U # rest" M] by simp
qed

lemma circuit_product_snoc:
  "Ms \<noteq> [] \<Longrightarrow> circuit_product (Ms @ [M]) =
     (case circuit_product Ms of Inl e \<Rightarrow> Inl e | Inr P \<Rightarrow> matmul M P)"
  by (cases "rev Ms") (simp_all add: circuit_product_def)

lemma chain_left_snoc:
  "chain_left buf U (Ms @ [M]) =
     (case chain_left buf U Ms of Inl e \<Rightarrow> Inl e | Inr P \<Rightarrow> matmul_out M P buf)"
  by (induction Ms arbitrary: U) (auto split: sum.splits)

lemma shape_mm:
  assumes "shape buf = (nrows M, ncols U)"
  shows "shape (mm M U) = shape buf"
proof (cases M)
  case Nil
  with assms have "buf = []" by (simp add: shape_def nrows_def)
  with Nil show ?thesis by (simp add: shape_def nrows_def ncols_def mm_def)
next
  case (Cons r M')
  with assms show ?thesis by (simp add: shape_def nrows_def ncols_def mm_def)
qed

lemma matmul_out_fits:
  assumes "shape U = shape buf"
  shows "matmul_out M U buf =
           (if shape M = (nrows buf, nrows buf) then Inr (mm M U) else Inl ValueError)"
  using assms by (auto simp: matmul_out_def shape_def)

lemma chain_left_fits:
  assumes "shape U = shape buf"
    and "list_all (\<lambda>M. shape M = (nrows buf, nrows buf)) rest"
  shows "\<exists>P. chain_left buf U rest = Inr P \<and> circuit_product (U # rest) = Inr P
             \<and> shape P = shape buf"
  using assms(2)
proof (induction rest rule: rev_induct)
  case Nil
  show ?case using assms(1) by (simp add: circuit_product_def)
next
  case (snoc M rest)
  then obtain P where P: "chain_left buf U rest = Inr P" "circuit_product (U # rest) = Inr P"
    "shape P = shape buf" by auto
  from snoc.prems have M: "shape M = (nrows buf, nrows buf)" by simp
  have out: "matmul_out M P buf = Inr (mm M P)" using P(3) M by (simp add: matmul_out_fits)
  have "ncols M = nrows P" using P(3) M by (simp add: shape_def)
  then have plain: "matmul M P = Inr (mm M P)" by (simp add: matmul_def)
  have "shape buf = (nrows M, ncols P)" using P(3) M by (auto simp: shape_def)
  then have "shape (mm M P) = shape buf" by (rule shape_mm)
  then show ?case
    using circuit_product_snoc [of "U # rest" M] P out plain by (simp add: chain_left_snoc)
qed

lemma chain_left_misfit:
  assumes "shape U = shape buf"
    and "\<not> list_all (\<lambda>M. shape M = (nrows buf, nrows buf)) rest"
  shows "chain_left buf U rest = Inl ValueError"
  using assms
proof (induction rest arbitrary: U)
  case Nil
  then show ?case by simp
next
  case (Cons M rest)
  show ?case
  proof (cases "shape M = (nrows buf, nrows buf)")
    case False
    then show ?thesis using Cons.prems(1) by (simp add: matmul_out_fits)
  next
    case True
    have "shape buf = (nrows M, ncols U)" using Cons.prems(1) True by (auto simp: shape_def)
    then have "shape (mm M U) = shape buf" by (rule shape_mm)
    moreover have "\<not> list_all (\<lambda>M. shape M = (nrows buf, nrows buf)) rest"
      using Cons.prems(2) True by simp
    ultimately have "chain_left buf (mm M U) rest = Inl ValueError" by (rule Cons.IH)
    then show ?thesis using Cons.prems(1) True by (simp add: matmul_out_fits)
  qed
qed

lemma chain_left_circuit:
  "chain_left U U rest =
     (if list_all (\<lambda>M. shape M = (nrows U, nrows U)) rest then circuit_product (U # rest)
      else Inl ValueError)"
proof (cases "list_all (\<lambda>M. shape M = (nrows U, nrows U)) rest")
  case True
  then show ?thesis using chain_left_fits [of U U rest] by auto
next
  case False
  then show ?thesis using chain_left_misfit [of U U rest] by simp
qed

lemma matrix_ProductGate_slices:
  assumes "gs \<noteq> []" "\<forall>g\<in>set gs. 0 \<le> num_inputs g"
    and "int (length v) = sum_list (map num_inputs gs)"
    and "on_slices (matrix L) gs v = Inr Ms"
  shows "matrix L (ProductGate n q gs) v =
           (if list_all (\<lambda>M. shape M = (nrows (hd Ms), nrows (hd Ms))) (tl Ms)
            then circuit_product Ms else Inl ValueError)"
proof (cases "length gs < 2")
  case True
  with assms(1) obtain g where gs: "gs = [g]" by (cases gs) auto
  with assms have "on_slices (matrix L) [g] v = Inr Ms" "0 \<le> num_inputs g"
    "int (length v) = num_inputs g" by auto
  then obtain M where "matrix L g v = Inr M" "Ms = [M]"
    by (cases "matrix L g v") (auto simp: on_slices_single)
  then show ?thesis unfolding gs by (simp add: circuit_product_def)
next
  case False
  have len: "length Ms = length gs" using assms(4) by (rule on_slices_length)
  with False obtain U rest where Ms: "Ms = U # rest" by (cases Ms) auto
  have "gather (matrix L) gs v 0 = Inr Ms"
    using gather_slices [OF assms(2), of 0 "matrix L" v] assms(4) by simp
  with False show ?thesis by (simp add: Ms chain_left_circuit)
qed

lemma matrix_ProductGate_error:
  assumes "gs \<noteq> []" "\<forall>g\<in>set gs. 0 \<le> num_inputs g"
    and "int (length v) = sum_list (map num_inputs gs)"
    and "on_slices (matrix L) gs v = Inl e"
  shows "matrix L (ProductGate n q gs) v = Inl e"
proof (cases "length gs < 2")
  case True
  with assms(1) obtain g where gs: "gs = [g]" by (cases gs) auto
  with assms have "on_slices (matrix L) [g] v = Inl e" "0 \<le> num_inputs g"
    "int (length v) = num_inputs g" by auto
  then have "matrix L g v = Inl e"
    by (cases "matrix L g v") (auto simp: on_slices_single)
  then show ?thesis unfolding gs by simp
next
  case False
  then show ?thesis using gather_on_slices [OF assms(2), of "matrix L" v] assms(4) by simp
qed

lemma matrix_KroneckerGate_slices:
  assumes "gs \<noteq> []" "\<forall>g\<in>set gs. 0 \<le> num_inputs g"
    and "int (length v) = sum_list (map num_inputs gs)"
    and "on_slices (matrix L) gs v = Inr Ms"
  shows "matrix L (KroneckerGate n q gs) v = Inr (kron_all Ms)"
proof (cases "length gs < 2")
  case True
  with assms(1) obtain g where gs: "gs = [g]" by (cases gs) auto
  with assms have "on_slices (matrix L) [g] v = Inr Ms" "0 \<le> num_inputs g"
    "int (length v) = num_inputs g" by auto
  then obtain M where "matrix L g v = Inr M" "Ms = [M]"
    by (cases "matrix L g v") (auto simp: on_slices_single)
  then show ?thesis unfolding gs by (simp add: kron_all_single)
next
  case False
  have len: "length Ms = length gs" using assms(4) by (rule on_slices_length)
  with False obtain U rest where Ms: "Ms = U # rest" by (cases Ms) auto
  have "gather (matrix L) gs v 0 = Inr Ms"
    using gather_slices [OF assms(2), of 0 "matrix L" v] assms(4) by simp
  with False show ?thesis by (simp add: Ms foldl_kron_all)
qed

lemma matrix_KroneckerGate_error:
  assumes "gs \<noteq> []" "\<forall>g\<in>set gs. 0 \<le> num_inputs g"
    and "int (length v) = sum_list (map num_inputs gs)"
    and "on_slices (matrix L) gs v = Inl e"
  shows "matrix L (KroneckerGate n q gs) v = Inl e"
proof (cases "length gs < 2")
  case True
  with assms(1) obtain g where gs: "gs = [g]" by (cases gs) auto
  with assms have "on_slices (matrix L) [g] v = Inl e" "0 \<le> num_inputs g"
    "int (length v) = num_inputs g" by auto
  then have "matrix L g v = Inl e"
    by (cases "matrix L g v") (auto simp: on_slices_single)
  then show ?thesis unfolding gs by simp
next
  case False
  then show ?thesis using gather_on_slices [OF assms(2), of "matrix L" v] assms(4) by simp
qed

lemmas array_defs =
  matmul_def matmul_out_def shape_def mm_def dot_def col_def ncols_def nrows_def adjoint_def
  eye_def upt_conv_Cons

lemma U3_at_0:
  "U3Gate_mat_jac [0, 0, 0] =
     Inr ([[1, 0], [0, 1]], [[[0, - 1/2], [1/2, 0]], [[0, 0], [0, \<i>]], [[0, 0], [0, \<i>]]])"
  by (simp add: U3Gate_mat_jac_def Let_def)

lemma U3_at_pi:
  "U3Gate_matrix [pi, 0, 0] = Inr [[0, - 1], [1, 0]]"
  by (simp add: U3Gate_matrix_def Let_def)

lemma U3_jac_at_pi:
  "U3Gate_mat_jac [pi, 0, 0] =
     Inr ([[0, - 1], [1, 0]],
          [[[- 1/2, 0], [0, - 1/2]], [[0, 0], [\<i>, 0]], [[0, - \<i>], [0, 0]]])"
  by (simp add: U3Gate_mat_jac_def Let_def)

text \<open>
  C2. For a \<^verbatim>\<open>ProductGate\<close> with at least one child, whose children's parameter counts
  are not negative and add up to the declared \<^verbatim>\<open>num_inputs\<close>, and a vector \<open>v\<close> of that
  length: \<^verbatim>\<open>matrix(v)\<close> runs each child on its contiguous slice of \<open>v\<close> and returns the
  product of the children's matrices in circuit order, \<open>U\<^sub>n \<cdots> U\<^sub>2 \<cdot> U\<^sub>1\<close>, each new matrix
  multiplied on the left of the product so far. The products are written to a buffer of
  the first matrix's shape, so every later matrix is to have the shape \<open>(r, r)\<close>, \<open>r\<close> the
  first one's number of rows, as the matrices of gates on the same qudits have;
  \<^verbatim>\<open>matrix(v)\<close> raises \<^verbatim>\<open>ValueError\<close> when one has not, and the first exception of a
  child is the exception of \<^verbatim>\<open>matrix(v)\<close>.
\<close>

theorem C2_ProductGate_matrix:
  assumes "gs \<noteq> []" and "\<forall>g\<in>set gs. 0 \<le> num_inputs g"
    and "n = sum_list (map num_inputs gs)" and "int (length v) = n"
  shows "matrix L (ProductGate n q gs) v =
           (case on_slices (matrix L) gs v of
              Inl e \<Rightarrow> Inl e
            | Inr Ms \<Rightarrow>
                if list_all (\<lambda>M. shape M = (nrows (hd Ms), nrows (hd Ms))) (tl Ms)
                then circuit_product Ms else Inl ValueError)"
proof (cases "on_slices (matrix L) gs v")
  case (Inl e)
  have "matrix L (ProductGate n q gs) v = Inl e"
    by (rule matrix_ProductGate_error) (use assms Inl in simp_all)
  with Inl show ?thesis by (simp only: sum.case)
next
  case (Inr Ms)
  have "matrix L (ProductGate n q gs) v =
          (if list_all (\<lambda>M. shape M = (nrows (hd Ms), nrows (hd Ms))) (tl Ms)
           then circuit_product Ms else Inl ValueError)"
    by (rule matrix_ProductGate_slices) (use assms Inr in simp_all)
  with Inr show ?thesis by (simp only: sum.case)
qed

theorem C2_ProductGate_matrix_witness:
  "matrix unmodelled (ProductGate_init [UGate [[0, 1], [1, 0]] 2 1, U3Gate]) [pi, 0, 0] =
     circuit_product [[[0, 1], [1, 0]], [[0, - 1], [1, 0]]]
   \<and> circuit_product [[[0, 1], [1, 0]], [[0, - 1], [1, 0]]] = Inr [[- 1, 0], [0, 1]]
   \<and> matmul [[0, 1], [1, 0]] [[0, - 1], [1, 0]] = Inr [[1, 0], [0, - 1]]"
proof -
  let ?gs = "[UGate [[0, 1], [1, 0]] 2 1, U3Gate]"
  have init: "ProductGate_init ?gs = ProductGate 3 1 ?gs"
    by (simp add: ProductGate_init_def)
  have sl: "on_slices (matrix unmodelled) ?gs [pi, 0, 0] = Inr [[[0, 1], [1, 0]], [[0, - 1], [1, 0]]]"
    by (simp add: on_slices_def child_slices_def U3_at_pi)
  have fit: "list_all (\<lambda>M. shape M = (nrows (hd [[[0, 1], [1, 0]], [[0, - 1], [1, 0]]]),
                                         nrows (hd [[[0, 1], [1, 0]], [[0, - 1], [1, 0]]])))
               (tl [[[0, 1], [1, 0]], [[0, - 1], [1, 0]] :: ndarray])"
    by (simp add: shape_def nrows_def ncols_def)
  have "matrix unmodelled (ProductGate 3 1 ?gs) [pi, 0, 0] =
          (case on_slices (matrix unmodelled) ?gs [pi, 0, 0] of
             Inl e \<Rightarrow> Inl e
           | Inr Ms \<Rightarrow>
               if list_all (\<lambda>M. shape M = (nrows (hd Ms), nrows (hd Ms))) (tl Ms)
               then circuit_product Ms else Inl ValueError)"
    by (rule C2_ProductGate_matrix) simp_all
  then have "matrix unmodelled (ProductGate_init ?gs) [pi, 0, 0] =
               circuit_product [[[0, 1], [1, 0]], [[0, - 1], [1, 0]]]"
    by (simp only: init sl sum.case fit if_True)
  moreover have "circuit_product [[[0, 1], [1, 0]], [[0, - 1], [1, 0]]] = Inr [[- 1, 0], [0, 1]]"
    by (simp add: circuit_product_def array_defs)
  moreover have "matmul [[0, 1], [1, 0]] [[0, - 1], [1, 0]] = Inr [[1, 0], [0, - 1]]"
    by (simp add: array_defs)
  ultimately show ?thesis by (simp only: simp_thms)
qed

text \<open>
  C4. For a \<^verbatim>\<open>KroneckerGate\<close> with at least one child, whose children's parameter counts
  are not negative and add up to the declared \<^verbatim>\<open>num_inputs\<close>, and a vector \<open>v\<close> of that
  length: \<^verbatim>\<open>matrix(v)\<close> runs each child on its contiguous slice of \<open>v\<close> and returns the
  Kronecker product of the children's matrices taken from the left; for two children this
  is \<open>kron U\<^sub>1 U\<^sub>2\<close>.
\<close>

theorem C4_KroneckerGate_matrix:
  assumes "gs \<noteq> []" and "\<forall>g\<in>set gs. 0 \<le> num_inputs g"
    and "n = sum_list (map num_inputs gs)" and "int (length v) = n"
  shows "matrix L (KroneckerGate n q gs) v =
           (case on_slices (matrix L) gs v of
              Inl e \<Rightarrow> Inl e
            | Inr Ms \<Rightarrow> Inr (kron_all Ms))
         \<and> kron_all [A, B] = kron A B"
proof (cases "on_slices (matrix L) gs v")
  case (Inl e)
  have "matrix L (KroneckerGate n q gs) v = Inl e"
    by (rule matrix_KroneckerGate_error) (use assms Inl in simp_all)
  moreover have "kron_all [A, B] = kron A B" by (simp add: kron_all_def)
  ultimately show ?thesis using Inl by (simp only: sum.case simp_thms)
next
  case (Inr Ms)
  have "matrix L (KroneckerGate n q gs) v = Inr (kron_all Ms)"
    by (rule matrix_KroneckerGate_slices) (use assms Inr in simp_all)
  moreover have "kron_all [A, B] = kron A B" by (simp add: kron_all_def)
  ultimately show ?thesis using Inr by (simp only: sum.case simp_thms)
qed

theorem C4_KroneckerGate_matrix_witness:
  "matrix unmodelled (KroneckerGate_init [U3Gate, CZGate]) [pi, 0, 0] =
     Inr (kron [[0, - 1], [1, 0]] CZGate_gate)
   \<and> kron [[0, - 1], [1, 0]] CZGate_gate =
       [[0, 0, 0, 0, - 1, 0, 0, 0],
        [0, 0, 0, 0, 0, - 1, 0, 0],
        [0, 0, 0, 0, 0, 0, - 1, 0],
        [0, 0, 0, 0, 0, 0, 0, 1],
        [1, 0, 0, 0, 0, 0, 0, 0],
        [0, 1, 0, 0, 0, 0, 0, 0],
        [0, 0, 1, 0, 0, 0, 0, 0],
        [0, 0, 0, - 1, 0, 0, 0, 0]]"
proof -
  let ?gs = "[U3Gate, CZGate]"
  have init: "KroneckerGate_init ?gs = KroneckerGate 3 3 ?gs"
    by (simp add: KroneckerGate_init_def)
  have sl: "on_slices (matrix unmodelled) ?gs [pi, 0, 0] = Inr [[[0, - 1], [1, 0]], CZGate_gate]"
    by (simp add: on_slices_def child_slices_def U3_at_pi)
  have "matrix unmodelled (KroneckerGate 3 3 ?gs) [pi, 0, 0] =
          (case on_slices (matrix unmodelled) ?gs [pi, 0, 0] of
             Inl e \<Rightarrow> Inl e
           | Inr Ms \<Rightarrow> Inr (kron_all Ms))
        \<and> kron_all [[[0, - 1], [1, 0]], CZGate_gate] = kron [[0, - 1], [1, 0]] CZGate_gate"
    by (rule C4_KroneckerGate_matrix) simp_all
  then have "matrix unmodelled (KroneckerGate_init ?gs) [pi, 0, 0] =
               Inr (kron [[0, - 1], [1, 0]] CZGate_gate)"
    by (simp only: init sl sum.case)
  moreover have "kron [[0, - 1], [1, 0]] CZGate_gate =
       [[0, 0, 0, 0, - 1, 0, 0, 0],
        [0, 0, 0, 0, 0, - 1, 0, 0],
        [0, 0, 0, 0, 0, 0, - 1, 0],
        [0, 0, 0, 0, 0, 0, 0, 1],
        [1, 0, 0, 0, 0, 0, 0, 0],
        [0, 1, 0, 0, 0, 0, 0, 0],
        [0, 0, 1, 0, 0, 0, 0, 0],
        [0, 0, 0, - 1, 0, 0, 0, 0]]"
    by (simp add: kron_def CZGate_gate_def)
  ultimately show ?thesis by (simp only: simp_thms)
qed

subsection \<open>Jacobians of the Kronecker composite\<close>

lemma kron_jac_loop_snoc:
  "kron_jac_loop st (xs @ [(M, Js)]) =
     (case kron_jac_loop st xs of
        (U, jacs) \<Rightarrow>
          (Some (case U of None \<Rightarrow> M | Some U' \<Rightarrow> kron U' M),
           map (\<lambda>J. kron J M) jacs @ map (\<lambda>J. case U of None \<Rightarrow> J | Some U' \<Rightarrow> kron U' J) Js))"
proof (induction xs arbitrary: st)
  case Nil
  show ?case by (cases st) simp
next
  case (Cons x xs)
  show ?case by (cases st; cases x) (simp add: Cons.IH)
qed

lemma kron_jacs_snoc:
  assumes "MJs \<noteq> []"
  shows "kron_jacs (MJs @ [(M, Js)]) =
           map (\<lambda>J. kron J M) (kron_jacs MJs) @ map (\<lambda>J. kron (kron_all (map fst MJs)) J) Js"
proof -
  define F where "F k = map (\<lambda>J. kron_all ((map fst (MJs @ [(M, Js)]))[k := J]))
                           (snd ((MJs @ [(M, Js)]) ! k))" for k
  define G where "G k = map (\<lambda>J. kron_all ((map fst MJs)[k := J])) (snd (MJs ! k))" for k
  have ne: "(map fst MJs)[k := J] \<noteq> []" for k J using assms by simp
  have old: "F k = map (\<lambda>J. kron J M) (G k)" if "k < length MJs" for k
    unfolding F_def G_def using that kron_all_snoc [OF ne]
    by (simp add: nth_append list_update_append1)
  have new: "F (length MJs) = map (\<lambda>J. kron (kron_all (map fst MJs)) J) Js"
    unfolding F_def using kron_all_snoc [of "map fst MJs"] assms
    by (simp add: list_update_append nth_append)
  have "map F [0..<length MJs] = map (\<lambda>k. map (\<lambda>J. kron J M) (G k)) [0..<length MJs]"
    by (rule map_cong [OF refl]) (simp add: old)
  then have "concat (map F [0..<length MJs])
             = concat (map (\<lambda>k. map (\<lambda>J. kron J M) (G k)) [0..<length MJs])"
    by (rule arg_cong)
  also have "\<dots> = map (\<lambda>J. kron J M) (concat (map G [0..<length MJs]))"
    by (simp add: map_concat comp_def)
  finally have "concat (map F [0..<length MJs])
                = map (\<lambda>J. kron J M) (concat (map G [0..<length MJs]))" .
  moreover have "kron_jacs (MJs @ [(M, Js)]) = concat (map F [0..<length MJs]) @ F (length MJs)"
    unfolding kron_jacs_def F_def by simp
  moreover have "kron_jacs MJs = concat (map G [0..<length MJs])"
    unfolding kron_jacs_def G_def by simp
  ultimately show ?thesis using new by simp
qed

lemma kron_jac_loop_result:
  "MJs \<noteq> [] \<Longrightarrow>
   kron_jac_loop (None, []) MJs = (Some (kron_all (map fst MJs)), kron_jacs MJs)"
proof (induction MJs rule: rev_induct)
  case Nil
  then show ?case by simp
next
  case (snoc x MJs)
  obtain M Js where x: "x = (M, Js)" by (cases x)
  show ?case
  proof (cases "MJs = []")
    case True
    then show ?thesis by (simp add: x kron_jacs_def kron_all_single)
  next
    case False
    with snoc.IH show ?thesis
      unfolding x by (simp add: kron_jac_loop_snoc kron_jacs_snoc kron_all_snoc)
  qed
qed

lemma mat_jac_KroneckerGate_slices:
  assumes "gs \<noteq> []" "\<forall>g\<in>set gs. 0 \<le> num_inputs g"
    and "int (length v) = sum_list (map num_inputs gs)"
    and "on_slices (mat_jac L) gs v = Inr MJs"
  shows "mat_jac L (KroneckerGate n q gs) v = Inr (kron_all (map fst MJs), kron_jacs MJs)"
proof (cases "length gs < 2")
  case True
  with assms(1) obtain g where gs: "gs = [g]" by (cases gs) auto
  with assms have "on_slices (mat_jac L) [g] v = Inr MJs" "0 \<le> num_inputs g"
    "int (length v) = num_inputs g" by auto
  then obtain MJ where "mat_jac L g v = Inr MJ" "MJs = [MJ]"
    by (cases "mat_jac L g v") (auto simp: on_slices_single)
  then show ?thesis unfolding gs
    by (cases MJ) (simp add: kron_all_single kron_jacs_def)
next
  case False
  have len: "length MJs = length gs" using assms(4) by (rule on_slices_length)
  with False have ne: "MJs \<noteq> []" by auto
  have "gather (mat_jac L) gs v 0 = Inr MJs"
    using gather_slices [OF assms(2), of 0 "mat_jac L" v] assms(4) by simp
  with False show ?thesis by (simp add: kron_jac_loop_result [OF ne])
qed

lemma nth_concat_offset:
  "k < length xss \<Longrightarrow> i < length (xss ! k) \<Longrightarrow>
   concat xss ! (sum_list (map length (take k xss)) + i) = xss ! k ! i"
proof (induction xss arbitrary: k)
  case Nil
  then show ?case by simp
next
  case (Cons xs xss)
  show ?case
  proof (cases k)
    case 0
    with Cons.prems show ?thesis by (simp add: nth_append)
  next
    case (Suc k')
    with Cons.prems have "concat xss ! (sum_list (map length (take k' xss)) + i) = xss ! k' ! i"
      by (intro Cons.IH) simp_all
    then show ?thesis using Suc by (simp add: nth_append add.assoc)
  qed
qed

lemma indexed_concat_nth:
  assumes "k < n" "i < length (Y k)"
  shows "concat (map (\<lambda>k. map (F k) (Y k)) [0..<n]) ! (sum_list (map (\<lambda>k. length (Y k)) [0..<k]) + i)
         = F k (Y k ! i)"
proof -
  let ?xss = "map (\<lambda>k. map (F k) (Y k)) [0..<n]"
  have "take k ?xss = map (\<lambda>k. map (F k) (Y k)) [0..<k]"
    using assms(1) by (simp add: take_map take_upt)
  then have "sum_list (map length (take k ?xss)) = sum_list (map (\<lambda>k. length (Y k)) [0..<k])"
    by (simp add: comp_def)
  moreover have "concat ?xss ! (sum_list (map length (take k ?xss)) + i) = ?xss ! k ! i"
    by (rule nth_concat_offset) (use assms in simp_all)
  ultimately show ?thesis using assms by simp
qed

lemma count_prefix:
  "k \<le> length MJs \<Longrightarrow>
   sum_list (map (\<lambda>k. length (snd (MJs ! k))) [0..<k]) =
   sum_list (map (\<lambda>MJ. length (snd MJ)) (take k MJs))"
proof -
  assume "k \<le> length MJs"
  then have "take k MJs = map (\<lambda>k. MJs ! k) [0..<k]"
    by (intro nth_equalityI) simp_all
  then show ?thesis by (simp add: comp_def)
qed

lemma kron_jacs_length:
  "length (kron_jacs MJs) = sum_list (map (\<lambda>MJ. length (snd MJ)) MJs)"
  using count_prefix [of "length MJs" MJs]
  by (simp add: kron_jacs_def length_concat comp_def)

lemma kron_jacs_nth:
  assumes "k < length MJs" "i < length (snd (MJs ! k))"
  shows "kron_jacs MJs ! (sum_list (map (\<lambda>MJ. length (snd MJ)) (take k MJs)) + i)
         = kron_all ((map fst MJs)[k := snd (MJs ! k) ! i])"
  unfolding kron_jacs_def
  using indexed_concat_nth [of k "length MJs" i "\<lambda>k. snd (MJs ! k)"
      "\<lambda>k J. kron_all ((map fst MJs)[k := J])"] assms count_prefix [of k MJs]
  by simp

text \<open>
  C3. For a \<^verbatim>\<open>KroneckerGate\<close> as in C4 whose children all return their matrix and
  Jacobians on their slices: \<^verbatim>\<open>mat_jac(v)\<close> returns the Kronecker product of the
  children's matrices and one Jacobian for each Jacobian of each child, in the order of
  the children and of each child's own Jacobians; the one for the \<open>i\<close>-th Jacobian of child
  \<open>k\<close> is the Kronecker product of all the children's matrices, taken from the left, with
  the \<open>k\<close>-th matrix replaced by that Jacobian.
\<close>

theorem C3_KroneckerGate_mat_jac:
  assumes "gs \<noteq> []" and "\<forall>g\<in>set gs. 0 \<le> num_inputs g"
    and "n = sum_list (map num_inputs gs)" and "int (length v) = n"
    and "on_slices (mat_jac L) gs v = Inr MJs"
  shows "mat_jac L (KroneckerGate n q gs) v = Inr (kron_all (map fst MJs), kron_jacs MJs)
         \<and> length (kron_jacs MJs) = sum_list (map (\<lambda>MJ. length (snd MJ)) MJs)
         \<and> (\<forall>k<length MJs. \<forall>i<length (snd (MJs ! k)).
               kron_jacs MJs ! (sum_list (map (\<lambda>MJ. length (snd MJ)) (take k MJs)) + i)
               = kron_all ((map fst MJs)[k := snd (MJs ! k) ! i]))"
proof -
  have "mat_jac L (KroneckerGate n q gs) v = Inr (kron_all (map fst MJs), kron_jacs MJs)"
    by (rule mat_jac_KroneckerGate_slices) (use assms in simp_all)
  then show ?thesis
    using kron_jacs_length [of MJs] kron_jacs_nth [of _ MJs] by blast
qed

theorem C3_KroneckerGate_mat_jac_witness:
  "mat_jac unmodelled (KroneckerGate_init [U3Gate, U3Gate]) [0, 0, 0, pi, 0, 0] =
     Inr (kron_all [[[1, 0], [0, 1]], [[0, - 1], [1, 0]]],
          kron_jacs
            [([[1, 0], [0, 1]], [[[0, - 1/2], [1/2, 0]], [[0, 0], [0, \<i>]], [[0, 0], [0, \<i>]]]),
             ([[0, - 1], [1, 0]], [[[- 1/2, 0], [0, - 1/2]], [[0, 0], [\<i>, 0]], [[0, - \<i>], [0, 0]]])])
   \<and> kron_jacs
         [([[1, 0], [0, 1]], [[[0, - 1/2], [1/2, 0]], [[0, 0], [0, \<i>]], [[0, 0], [0, \<i>]]]),
          ([[0, - 1], [1, 0]], [[[- 1/2, 0], [0, - 1/2]], [[0, 0], [\<i>, 0]], [[0, - \<i>], [0, 0]]])]
       ! 4
       = kron [[1, 0], [0, 1]] [[0, 0], [\<i>, 0]]
   \<and> kron_jacs
         [([[1, 0], [0, 1]], [[[0, - 1/2], [1/2, 0]], [[0, 0], [0, \<i>]], [[0, 0], [0, \<i>]]]),
          ([[0, - 1], [1, 0]], [[[- 1/2, 0], [0, - 1/2]], [[0, 0], [\<i>, 0]], [[0, - \<i>], [0, 0]]])]
       ! 1
       = kron [[0, 0], [0, \<i>]] [[0, - 1], [1, 0]]
   \<and> kron [[0, 0], [0, \<i>]] [[0, - 1], [1, 0]] =
         [[0, 0, 0, 0], [0, 0, 0, 0], [0, 0, 0, - \<i>], [0, 0, \<i>, 0]]"
proof -
  let ?gs = "[U3Gate, U3Gate]"
  let ?v = "[0, 0, 0, pi, 0, 0]"
  let ?MJs = "[([[1, 0], [0, 1]], [[[0, - 1/2], [1/2, 0]], [[0, 0], [0, \<i>]], [[0, 0], [0, \<i>]]]),
               ([[0, - 1], [1, 0]], [[[- 1/2, 0], [0, - 1/2]], [[0, 0], [\<i>, 0]], [[0, - \<i>], [0, 0]]])]
               :: (ndarray \<times> ndarray list) list"
  have init: "KroneckerGate_init ?gs = KroneckerGate 6 2 ?gs"
    by (simp add: KroneckerGate_init_def)
  have sl: "on_slices (mat_jac unmodelled) ?gs ?v = Inr ?MJs"
    by (simp add: on_slices_def child_slices_def U3_at_0 U3_jac_at_pi)
  note th = C3_KroneckerGate_mat_jac [of ?gs 6 ?v unmodelled ?MJs 2, OF _ _ _ _ sl]
  have th': "mat_jac unmodelled (KroneckerGate 6 2 ?gs) ?v = Inr (kron_all (map fst ?MJs), kron_jacs ?MJs)
         \<and> length (kron_jacs ?MJs) = sum_list (map (\<lambda>MJ. length (snd MJ)) ?MJs)
         \<and> (\<forall>k<length ?MJs. \<forall>i<length (snd (?MJs ! k)).
               kron_jacs ?MJs ! (sum_list (map (\<lambda>MJ. length (snd MJ)) (take k ?MJs)) + i)
               = kron_all ((map fst ?MJs)[k := snd (?MJs ! k) ! i]))"
    by (rule th) simp_all
  have fsts: "map fst ?MJs = [[[1, 0], [0, 1]], [[0, - 1], [1, 0]]]" by simp
  from th' have "mat_jac unmodelled (KroneckerGate 6 2 ?gs) ?v = Inr (kron_all (map fst ?MJs), kron_jacs ?MJs)"
    by (rule conjunct1)
  then have a: "mat_jac unmodelled (KroneckerGate_init ?gs) ?v =
      Inr (kron_all [[[1, 0], [0, 1]], [[0, - 1], [1, 0]]], kron_jacs ?MJs)"
    by (simp only: init fsts)
  from th' have idx: "\<forall>k<length ?MJs. \<forall>i<length (snd (?MJs ! k)).
               kron_jacs ?MJs ! (sum_list (map (\<lambda>MJ. length (snd MJ)) (take k ?MJs)) + i)
               = kron_all ((map fst ?MJs)[k := snd (?MJs ! k) ! i])"
    by (rule conjunct2 [THEN conjunct2])
  have "kron_jacs ?MJs ! (sum_list (map (\<lambda>MJ. length (snd MJ)) (take 1 ?MJs)) + 1)
               = kron_all ((map fst ?MJs)[1 := snd (?MJs ! 1) ! 1])"
    by (rule idx [rule_format]) simp_all
  then have b: "kron_jacs ?MJs ! 4 = kron [[1, 0], [0, 1]] [[0, 0], [\<i>, 0]]"
    by (simp add: kron_all_def eval_nat_numeral)
  have "kron_jacs ?MJs ! (sum_list (map (\<lambda>MJ. length (snd MJ)) (take 0 ?MJs)) + 1)
               = kron_all ((map fst ?MJs)[0 := snd (?MJs ! 0) ! 1])"
    by (rule idx [rule_format]) simp_all
  then have c: "kron_jacs ?MJs ! 1 = kron [[0, 0], [0, \<i>]] [[0, - 1], [1, 0]]"
    by (simp add: kron_all_def)
  have d: "kron [[0, 0], [0, \<i>]] [[0, - 1], [1, 0]] =
         [[0, 0, 0, 0], [0, 0, 0, 0], [0, 0, 0, - \<i>], [0, 0, \<i>, 0]]"
    by (simp add: kron_def)
  from a b c d show ?thesis by (simp only: simp_thms)
qed

subsection \<open>Square arrays\<close>






















subsection \<open>Jacobians of the product composite\<close>











subsection \<open>The Jacobians as derivatives\<close>

lemma all_less_2: "(\<forall>k<2. P k) \<longleftrightarrow> P 0 \<and> P (1::nat)"
proof -
  have "k < 2 \<longleftrightarrow> k = 0 \<or> k = 1" for k :: nat by arith
  then show ?thesis by auto
qed


























lemma U3Gate_has_jacobian_1:
  assumes "U3Gate_mat_jac [x, y, z] = Inr (U, Js)"
  shows "has_jacobian 2 (\<lambda>t. U3Gate_matrix [x, t, z]) (Js ! 1) y"
proof -
  let ?F = "\<lambda>t. [[complex_of_real (cos (x / 2)),
                  - complex_of_real (sin (x / 2)) * (complex_of_real (cos z) + \<i> * complex_of_real (sin z))],
                 [complex_of_real (sin (x / 2)) * (complex_of_real (cos t) + \<i> * complex_of_real (sin t)),
                  complex_of_real (cos (x / 2)) * (complex_of_real (cos z) * complex_of_real (cos t) - complex_of_real (sin z) * complex_of_real (sin t) + \<i> * complex_of_real (cos z) * complex_of_real (sin t) + \<i> * complex_of_real (sin z) * complex_of_real (cos t))]]"
  have J: "Js ! 1 = [[0, 0],
                     [complex_of_real (sin (x / 2)) * (- complex_of_real (sin y) + \<i> * complex_of_real (cos y)),
                      complex_of_real (cos (x / 2)) * (complex_of_real (cos z) * - complex_of_real (sin y) - complex_of_real (sin z) * complex_of_real (cos y) + \<i> * complex_of_real (cos z) * complex_of_real (cos y) + \<i> * complex_of_real (sin z) * - complex_of_real (sin y))]]"
    using assms by (auto simp: U3Gate_mat_jac_def Let_def)
  have F: "\<forall>t. U3Gate_matrix [x, t, z] = Inr (?F t) \<and> square 2 (?F t)"
    by (simp add: U3Gate_matrix_def Let_def square_def)
  have D: "\<forall>a<2. \<forall>b<2. ((\<lambda>t. ?F t ! a ! b) has_vector_derivative Js ! 1 ! a ! b) (at y)"
    unfolding all_less_2 J
    by (auto intro!: derivative_eq_intros simp: algebra_simps)
  show ?thesis unfolding has_jacobian_def by (intro exI [of _ ?F] conjI F D)
qed

lemma U3Gate_has_jacobian_2:
  assumes "U3Gate_mat_jac [x, y, z] = Inr (U, Js)"
  shows "has_jacobian 2 (\<lambda>t. U3Gate_matrix [x, y, t]) (Js ! 2) z"
proof -
  let ?F = "\<lambda>t. [[complex_of_real (cos (x / 2)),
                  - complex_of_real (sin (x / 2)) * (complex_of_real (cos t) + \<i> * complex_of_real (sin t))],
                 [complex_of_real (sin (x / 2)) * (complex_of_real (cos y) + \<i> * complex_of_real (sin y)),
                  complex_of_real (cos (x / 2)) * (complex_of_real (cos t) * complex_of_real (cos y) - complex_of_real (sin t) * complex_of_real (sin y) + \<i> * complex_of_real (cos t) * complex_of_real (sin y) + \<i> * complex_of_real (sin t) * complex_of_real (cos y))]]"
  have J: "Js ! 2 = [[0, - complex_of_real (sin (x / 2)) * (- complex_of_real (sin z) + \<i> * complex_of_real (cos z))],
                     [0,
                      complex_of_real (cos (x / 2)) * (- complex_of_real (sin z) * complex_of_real (cos y) - complex_of_real (cos z) * complex_of_real (sin y) + \<i> * - complex_of_real (sin z) * complex_of_real (sin y) + \<i> * complex_of_real (cos z) * complex_of_real (cos y))]]"
    using assms by (auto simp: U3Gate_mat_jac_def Let_def)
  have F: "\<forall>t. U3Gate_matrix [x, y, t] = Inr (?F t) \<and> square 2 (?F t)"
    by (simp add: U3Gate_matrix_def Let_def square_def)
  have D: "\<forall>a<2. \<forall>b<2. ((\<lambda>t. ?F t ! a ! b) has_vector_derivative Js ! 2 ! a ! b) (at z)"
    unfolding all_less_2 J
    by (auto intro!: derivative_eq_intros simp: algebra_simps)
  show ?thesis unfolding has_jacobian_def by (intro exI [of _ ?F] conjI F D)
qed

text \<open>
  \<^verbatim>\<open>U3Gate\<close> is such a child at every parameter vector: its matrix is unitary, its three
  Jacobians have the matrix's shape, and (the three lemmas above) they are the derivatives
  of its matrix in the three parameters.
\<close>

lemma U3_shape_unitary:
  fixes c s cp sp cl sl :: real
  assumes "c * c + s * s = 1" "cp * cp + sp * sp = 1" "cl * cl + sl * sl = 1"
  shows "mm [[complex_of_real c, - complex_of_real s * (complex_of_real cl + \<i> * complex_of_real sl)],
             [complex_of_real s * (complex_of_real cp + \<i> * complex_of_real sp),
              complex_of_real c * (complex_of_real cl * complex_of_real cp - complex_of_real sl * complex_of_real sp
                 + \<i> * complex_of_real cl * complex_of_real sp + \<i> * complex_of_real sl * complex_of_real cp)]]
         (adjoint [[complex_of_real c, - complex_of_real s * (complex_of_real cl + \<i> * complex_of_real sl)],
             [complex_of_real s * (complex_of_real cp + \<i> * complex_of_real sp),
              complex_of_real c * (complex_of_real cl * complex_of_real cp - complex_of_real sl * complex_of_real sp
                 + \<i> * complex_of_real cl * complex_of_real sp + \<i> * complex_of_real sl * complex_of_real cp)]])
         = eye 2"
  apply (simp add: array_defs complex_eq_iff)
  apply (intro conjI)
  apply ((use assms in algebra) | (simp add: algebra_simps))+
  done

lemma U3Gate_conforming:
  assumes "U3Gate_mat_jac [x, y, z] = Inr MJ"
  shows "conforming 2 MJ"
proof -
  have c: "cos a * cos a + sin a * sin a = 1" for a :: real
    using sin_cos_squared_add2 [of a] by (simp add: power2_eq_square)
  have "unitary 2 (fst MJ)"
    using assms U3_shape_unitary [OF c [of "x / 2"] c [of y] c [of z]]
    by (auto simp: U3Gate_mat_jac_def Let_def unitary_def square_def)
  moreover have "list_all (square 2) (snd MJ)"
    using assms by (auto simp: U3Gate_mat_jac_def Let_def square_def)
  ultimately show ?thesis by (simp add: conforming_def)
qed




text \<open>
  The method gets the product of the children after \<open>k\<close> by multiplying the full product
  with the conjugate transposes of the children up to \<open>k\<close>, which is where the matrices
  are used to be unitary. With an array that is not, \<^verbatim>\<open>UGate(2 * identity)\<close> in front of
  a \<^verbatim>\<open>U3Gate\<close>, at \<open>v = (0, 0, 0)\<close>, the method returns eight times the Jacobians of the
  \<^verbatim>\<open>U3Gate\<close>, where the product of the children after, the Jacobian and the product of
  the children before give twice these Jacobians.
\<close>

lemma mat_jac_child_not_unitary:
  "mat_jac unmodelled (ProductGate_init [UGate [[2, 0], [0, 2]] 2 1, U3Gate]) [0, 0, 0] =
     Inr ([[2, 0], [0, 2]], [[[0, - 4], [4, 0]], [[0, 0], [0, 8 * \<i>]], [[0, 0], [0, 8 * \<i>]]])
   \<and> on_slices (mat_jac unmodelled) [UGate [[2, 0], [0, 2]] 2 1, U3Gate] [0, 0, 0] =
     Inr [([[2, 0], [0, 2]], []),
          ([[1, 0], [0, 1]], [[[0, - 1/2], [1/2, 0]], [[0, 0], [0, \<i>]], [[0, 0], [0, \<i>]]])]
   \<and> prod_jacs 2 [([[2, 0], [0, 2]], []),
          ([[1, 0], [0, 1]], [[[0, - 1/2], [1/2, 0]], [[0, 0], [0, \<i>]], [[0, 0], [0, \<i>]]])]
       = [[[0, - 1], [1, 0]], [[0, 0], [0, 2 * \<i>]], [[0, 0], [0, 2 * \<i>]]]
   \<and> [[[0, - 4], [4, 0]], [[0, 0], [0, 8 * \<i>]], [[0, 0], [0, 8 * \<i>]]]
       \<noteq> [[[0, - 1], [1, 0]], [[0, 0], [0, 2 * \<i>]], [[0, 0], [0, 2 * \<i>::complex]]]"
proof -
  have "mat_jac unmodelled (ProductGate_init [UGate [[2, 0], [0, 2]] 2 1, U3Gate]) [0, 0, 0] =
     Inr ([[2, 0], [0, 2]], [[[0, - 4], [4, 0]], [[0, 0], [0, 8 * \<i>]], [[0, 0], [0, 8 * \<i>]]])"
    by (simp add: ProductGate_init_def slice_defs U3_at_0 array_defs)
  moreover have "on_slices (mat_jac unmodelled) [UGate [[2, 0], [0, 2]] 2 1, U3Gate] [0, 0, 0] =
     Inr [([[2, 0], [0, 2]], []),
          ([[1, 0], [0, 1]], [[[0, - 1/2], [1/2, 0]], [[0, 0], [0, \<i>]], [[0, 0], [0, \<i>]]])]"
    by (simp add: on_slices_def child_slices_def U3_at_0)
  moreover have "prod_jacs 2 [([[2, 0], [0, 2]], []),
          ([[1, 0], [0, 1]], [[[0, - 1/2], [1/2, 0]], [[0, 0], [0, \<i>]], [[0, 0], [0, \<i>]]])]
       = [[[0, - 1], [1, 0]], [[0, 0], [0, 2 * \<i>]], [[0, 0], [0, 2 * \<i>]]]"
    by (simp add: prod_jacs_def mat_prod_def array_defs upt_conv_Cons)
  moreover have "[[[0, - 4], [4, 0]], [[0, 0], [0, 8 * \<i>]], [[0, 0], [0, 8 * \<i>]]]
       \<noteq> [[[0, - 1], [1, 0]], [[0, 0], [0, 2 * \<i>]], [[0, 0], [0, 2 * \<i>::complex]]]"
    by simp
  ultimately show ?thesis by (simp only: simp_thms)
qed

subsection \<open>Equality, hash and the random phases of \<^verbatim>\<open>CPIPhaseGate\<close>\<close>

text \<open>
  Every representation starts with the name of the class and an opening parenthesis, and
  the seven classes that compare by type print their name and \<^verbatim>\<open>()\<close>: so comparing the
  types and comparing the representations agree, and \<^verbatim>\<open>a == b\<close> returns \<^verbatim>\<open>True\<close>
  exactly when both representations exist and are the same string.
\<close>

lemma repr_head: "repr b = Inr rb \<Longrightarrow> \<exists>rest. rb = type_name b @ ''('' @ rest"
  by (cases b) (auto split: sum.splits if_splits)

lemma repr_by_type:
  "eq_by_type a \<Longrightarrow> repr a = Inr (type_name a @ ''()'')"
  by (cases a) (auto simp: eq_by_type_def)

lemma eq_by_type_cases:
  "eq_by_type a \<longleftrightarrow> a \<in> {U3Gate, U2Gate, U1Gate, CNOTGate, CZGate, ISwapGate, XXGate}"
  by (cases a) (simp_all add: eq_by_type_def)

lemma type_by_head:
  assumes "eq_by_type a" "type_name b @ ''('' @ rest = type_name a @ ''()''"
  shows "type_name b = type_name a"
proof -
  from assms(1) have "a \<in> {U3Gate, U2Gate, U1Gate, CNOTGate, CZGate, ISwapGate, XXGate}"
    by (simp only: eq_by_type_cases)
  with assms(2) show ?thesis by (cases b) auto
qed

lemma type_by_repr:
  assumes "eq_by_type a" "repr b = Inr rb"
  shows "type_name a = type_name b \<longleftrightarrow> rb = type_name a @ ''()''"
proof
  assume t: "type_name a = type_name b"
  with assms(1) have "eq_by_type b" by (simp add: eq_by_type_def)
  then have "repr b = Inr (type_name b @ ''()'')" by (rule repr_by_type)
  with assms(2) t show "rb = type_name a @ ''()''" by simp
next
  assume r: "rb = type_name a @ ''()''"
  from repr_head [OF assms(2)] obtain rest where "rb = type_name b @ ''('' @ rest" ..
  with r have "type_name b @ ''('' @ rest = type_name a @ ''()''" by simp
  with assms(1) have "type_name b = type_name a" by (rule type_by_head)
  then show "type_name a = type_name b" ..
qed

lemma py_eq_repr:
  assumes "repr a = Inr ra" "repr b = Inr rb"
  shows "py_eq a b = Inr (ra = rb)"
proof (cases "eq_by_type a")
  case True
  then have "repr a = Inr (type_name a @ ''()'')" by (rule repr_by_type)
  with assms(1) have ra: "ra = type_name a @ ''()''" by simp
  have "type_name a = type_name b \<longleftrightarrow> ra = rb"
    using type_by_repr [OF True assms(2)] ra by auto
  with True show ?thesis by (simp add: py_eq_def)
next
  case False
  with assms show ?thesis by (simp add: py_eq_def)
qed

lemma py_eq_True_iff:
  "py_eq a b = Inr True \<longleftrightarrow> (\<exists>s. repr a = Inr s \<and> repr b = Inr s)"
proof (cases "eq_by_type a")
  case True
  then have ra: "repr a = Inr (type_name a @ ''()'')" by (rule repr_by_type)
  show ?thesis
  proof
    assume "py_eq a b = Inr True"
    with True have tb: "type_name a = type_name b" by (simp add: py_eq_def)
    with True have "eq_by_type b" by (simp add: eq_by_type_def)
    then have "repr b = Inr (type_name b @ ''()'')" by (rule repr_by_type)
    with ra tb show "\<exists>s. repr a = Inr s \<and> repr b = Inr s" by simp
  next
    assume "\<exists>s. repr a = Inr s \<and> repr b = Inr s"
    then have rb: "repr b = Inr (type_name a @ ''()'')" using ra by auto
    from type_by_repr [OF True rb] have "type_name a = type_name b" by simp
    with True show "py_eq a b = Inr True" by (simp add: py_eq_def)
  qed
next
  case False
  then show ?thesis by (auto simp: py_eq_def split: sum.splits)
qed

lemma py_hash_repr:
  "\<not> eq_by_type a \<Longrightarrow>
   py_hash md5 a = (case repr a of Inl e \<Rightarrow> Inl e | Inr s \<Rightarrow> Inr (md5 s))"
  by (simp add: py_hash_def)

lemma py_hash_by_type: "eq_by_type a \<Longrightarrow> py_hash md5 a = Inl TypeError"
  by (simp add: py_hash_def)

text \<open>
  C5. \<^verbatim>\<open>hash\<close> is not the digest of the representation for every gate. The classes
  that define their own \<^verbatim>\<open>__eq__\<close> (\<^verbatim>\<open>U3Gate\<close>, \<^verbatim>\<open>CNOTGate\<close> and five more) define no
  \<^verbatim>\<open>__hash__\<close>, so \<^verbatim>\<open>hash\<close> of their instances raises \<^verbatim>\<open>TypeError\<close>, though two such
  instances compare equal. \<^verbatim>\<open>UGate.__repr__\<close> and \<^verbatim>\<open>CUGate.__repr__\<close> raise, so for a
  \<^verbatim>\<open>UGate\<close>, a \<^verbatim>\<open>CUGate\<close> or a composite that holds one, \<^verbatim>\<open>a == a\<close> and \<^verbatim>\<open>hash(a)\<close>
  raise. A composite of gates that print is hashed by the digest of its representation.
\<close>

theorem C5_hash_and_equality_raise:
  "py_eq U3Gate U3Gate = Inr True
   \<and> py_hash md5 U3Gate = Inl TypeError
   \<and> py_hash md5 CNOTGate = Inl TypeError
   \<and> py_eq (UGate [[1, 0], [0, 1]] 2 1) (UGate [[1, 0], [0, 1]] 2 1) = Inl NameError
   \<and> py_hash md5 (UGate [[1, 0], [0, 1]] 2 1) = Inl NameError
   \<and> py_eq (CUGate [[0, 1], [1, 0]] False CNOTGate_cnot) (CUGate [[0, 1], [1, 0]] False CNOTGate_cnot)
       = Inl AttributeError
   \<and> py_eq (KroneckerGate_init [XGate, UGate [[1, 0], [0, 1]] 2 1])
           (KroneckerGate_init [XGate, UGate [[1, 0], [0, 1]] 2 1]) = Inl NameError
   \<and> py_hash md5 (ProductGate_init [U3Gate, CNOTGate]) = Inr (md5 ''ProductGate(U3Gate(), CNOTGate())'')"
  by (simp add: py_eq_def py_hash_def eq_by_type_def KroneckerGate_init_def ProductGate_init_def
      strip_ends_def repr_list_def slice_defs)

lemma init_eval:
  "CPIPhaseGate_init np_exp rng = Inr (CPIPhaseGate
     [[1,0,0, 0,0,0, 0,0,0],
      [0,1,0, 0,0,0, 0,0,0],
      [0,0,1, 0,0,0, 0,0,0],
      [0,0,0, 0,- np_exp (rng 0),0, 0,0,0],
      [0,0,0, 1,0,0, 0,0,0],
      [0,0,0, 0,0,np_exp (rng 1), 0,0,0],
      [0,0,0, 0,0,0, np_exp (rng 2),0,0],
      [0,0,0, 0,0,0, 0,np_exp (rng 3),0],
      [0,0,0, 0,0,0, 0,0,np_exp (rng 4)]])"
  by (simp add: CPIPhaseGate_init_def CPIPhaseGate_base_def diag_def array_defs
      eval_nat_numeral Let_def)

lemma phase_cis: "phase r = cis (2 * pi * r)"
proof -
  have "2 * \<i> * complex_of_real r * complex_of_real pi = \<i> * complex_of_real (2 * pi * r)"
    by simp
  then show ?thesis unfolding phase_def by (simp only: cis_conv_exp)
qed

lemma phase_0: "phase 0 = 1"
  by (simp add: phase_def)

lemma phase_half: "phase (1/2) = - 1"
  by (simp add: phase_cis)

lemma py_eq_CPIPhaseGate: "py_eq (CPIPhaseGate M) (CPIPhaseGate M') = Inr True"
  by (simp add: py_eq_def eq_by_type_def)

lemma py_hash_CPIPhaseGate: "py_hash md5 (CPIPhaseGate M) = Inr (md5 ''CPIPhaseGate()'')"
  by (simp add: py_hash_def eq_by_type_def)

text \<open>
  C10. \<^verbatim>\<open>CPIPhaseGate()\<close> bakes five random phases into its matrix. Any two runs of the
  constructor succeed; the two objects have the representation \<^verbatim>\<open>CPIPhaseGate()\<close>, they
  compare equal, and \<^verbatim>\<open>hash\<close> returns for both the digest of that string. Their matrices
  are the constant array with the five phase factors of the run in its last five columns,
  so they are the same array only if the two runs came to the same five phase factors.
  One object returns its stored array at every call.
\<close>

theorem C10_CPIPhaseGate_random_phases:
  "\<exists>M M'. CPIPhaseGate_init np_exp rng = Inr (CPIPhaseGate M)
         \<and> CPIPhaseGate_init np_exp rng' = Inr (CPIPhaseGate M')
         \<and> repr (CPIPhaseGate M) = Inr ''CPIPhaseGate()''
         \<and> repr (CPIPhaseGate M') = Inr ''CPIPhaseGate()''
         \<and> py_eq (CPIPhaseGate M) (CPIPhaseGate M') = Inr True
         \<and> py_hash md5 (CPIPhaseGate M) = Inr (md5 ''CPIPhaseGate()'')
         \<and> py_hash md5 (CPIPhaseGate M') = Inr (md5 ''CPIPhaseGate()'')
         \<and> M ! 3 ! 4 = - np_exp (rng 0) \<and> M ! 5 ! 5 = np_exp (rng 1)
         \<and> M ! 6 ! 6 = np_exp (rng 2) \<and> M ! 7 ! 7 = np_exp (rng 3)
         \<and> M ! 8 ! 8 = np_exp (rng 4)
         \<and> (matrix L (CPIPhaseGate M) [] = matrix L (CPIPhaseGate M') [] \<longleftrightarrow>
              map (\<lambda>k. np_exp (rng k)) [0..<5] = map (\<lambda>k. np_exp (rng' k)) [0..<5])
         \<and> (\<forall>v. matrix L (CPIPhaseGate M) v = Inr M)"
proof -
  obtain M where M: "CPIPhaseGate_init np_exp rng = Inr (CPIPhaseGate M)" and Mv: "M =
     [[1,0,0, 0,0,0, 0,0,0],
      [0,1,0, 0,0,0, 0,0,0],
      [0,0,1, 0,0,0, 0,0,0],
      [0,0,0, 0,- np_exp (rng 0),0, 0,0,0],
      [0,0,0, 1,0,0, 0,0,0],
      [0,0,0, 0,0,np_exp (rng 1), 0,0,0],
      [0,0,0, 0,0,0, np_exp (rng 2),0,0],
      [0,0,0, 0,0,0, 0,np_exp (rng 3),0],
      [0,0,0, 0,0,0, 0,0,np_exp (rng 4)]]"
    using init_eval [of np_exp rng] by blast
  obtain M' where M': "CPIPhaseGate_init np_exp rng' = Inr (CPIPhaseGate M')" and Mv': "M' =
     [[1,0,0, 0,0,0, 0,0,0],
      [0,1,0, 0,0,0, 0,0,0],
      [0,0,1, 0,0,0, 0,0,0],
      [0,0,0, 0,- np_exp (rng' 0),0, 0,0,0],
      [0,0,0, 1,0,0, 0,0,0],
      [0,0,0, 0,0,np_exp (rng' 1), 0,0,0],
      [0,0,0, 0,0,0, np_exp (rng' 2),0,0],
      [0,0,0, 0,0,0, 0,np_exp (rng' 3),0],
      [0,0,0, 0,0,0, 0,0,np_exp (rng' 4)]]"
    using init_eval [of np_exp rng'] by blast
  have "M = M' \<longleftrightarrow> map (\<lambda>k. np_exp (rng k)) [0..<5] = map (\<lambda>k. np_exp (rng' k)) [0..<5]"
    unfolding Mv Mv' by (simp add: upt_conv_Cons eval_nat_numeral)
  then have same: "matrix L (CPIPhaseGate M) [] = matrix L (CPIPhaseGate M') [] \<longleftrightarrow>
      map (\<lambda>k. np_exp (rng k)) [0..<5] = map (\<lambda>k. np_exp (rng' k)) [0..<5]"
    by simp
  have entries: "M ! 3 ! 4 = - np_exp (rng 0)" "M ! 5 ! 5 = np_exp (rng 1)"
    "M ! 6 ! 6 = np_exp (rng 2)" "M ! 7 ! 7 = np_exp (rng 3)" "M ! 8 ! 8 = np_exp (rng 4)"
    unfolding Mv by (simp_all add: eval_nat_numeral)
  have stored: "\<forall>v. matrix L (CPIPhaseGate M) v = Inr M" by simp
  show ?thesis
    using M M' same entries stored py_eq_CPIPhaseGate [of M M']
      py_hash_CPIPhaseGate [of md5 M] py_hash_CPIPhaseGate [of md5 M']
    by (intro exI [of _ M] exI [of _ M']) simp
qed

text \<open>
  Two runs whose phase factors are \<open>1\<close> (draws \<open>0\<close>) and \<open>-1\<close> (draws \<open>1/2\<close>): equal objects
  with the same hash and different matrices.
\<close>

theorem C10_CPIPhaseGate_random_phases_witness:
  "\<exists>g g'. CPIPhaseGate_init phase (\<lambda>k. 0) = Inr g \<and> CPIPhaseGate_init phase (\<lambda>k. 1/2) = Inr g'
         \<and> py_eq g g' = Inr True
         \<and> py_hash length g = Inr 14 \<and> py_hash length g' = Inr 14
         \<and> matrix unmodelled g [] \<noteq> matrix unmodelled g' []"
proof -
  obtain M M' where g: "CPIPhaseGate_init phase (\<lambda>k. 0) = Inr (CPIPhaseGate M)"
      "CPIPhaseGate_init phase (\<lambda>k. 1/2) = Inr (CPIPhaseGate M')"
      "py_eq (CPIPhaseGate M) (CPIPhaseGate M') = Inr True"
      "py_hash length (CPIPhaseGate M) = Inr (length ''CPIPhaseGate()'')"
      "py_hash length (CPIPhaseGate M') = Inr (length ''CPIPhaseGate()'')"
    and iff: "matrix unmodelled (CPIPhaseGate M) [] = matrix unmodelled (CPIPhaseGate M') []
       \<longleftrightarrow> map (\<lambda>k::nat. phase 0) [0..<5] = map (\<lambda>k::nat. phase (1/2)) [0..<5]"
    using C10_CPIPhaseGate_random_phases [of phase "\<lambda>k. 0" "\<lambda>k. 1/2" length unmodelled] by blast
  have "map (\<lambda>k::nat. phase 0) [0..<5] \<noteq> map (\<lambda>k::nat. phase (1/2)) [0..<5]"
    by (simp add: phase_0 phase_half upt_conv_Cons)
  with iff have "matrix unmodelled (CPIPhaseGate M) [] \<noteq> matrix unmodelled (CPIPhaseGate M') []"
    by blast
  with g show ?thesis by (intro exI [of _ "CPIPhaseGate M"] exI [of _ "CPIPhaseGate M'"]) simp
qed

end
